theory Spec2Isabelle
  imports Complex_Main "HOL-Library.Word" "HOL-Library.AList"
begin

section \<open>SEWA village agent: the content ingestion pipeline of server.js\<close>

text \<open>
  The development embeds \<^verbatim>\<open>src/server.js\<close>: the classifier \<^verbatim>\<open>analyzeContent\<close>, the
  store client (\<^verbatim>\<open>getFileFromGitHub\<close>, \<^verbatim>\<open>updateFileOnGitHub\<close>, \<^verbatim>\<open>uploadImageToGitHub\<close>),
  the collection updates (\<^verbatim>\<open>addNewsToWebsite\<close>, \<^verbatim>\<open>addPhotoToGallery\<close>), the allow-list
  check \<^verbatim>\<open>isAdmin\<close> and the three message handlers.

  Everything outside the file (the two language-model services, the GitHub API behind
  Octokit, the Telegram transport, \<^verbatim>\<open>sharp\<close>, the clock and \<^verbatim>\<open>uuidv4\<close>) is an
  environment that answers each request; every answer may be a failure. A function
  of the source becomes a function from that environment to the sequence of external
  actions it performs together with its result or the exception it throws.

  No handler sends the same request twice, so an environment that answers as a function
  of the request describes every run, also against a store that changes. What the
  code prints on the console is left out.
\<close>

subsection \<open>Strings and buffers\<close>

text \<open>
  A JavaScript string is a sequence of UTF-16 code units, and \<^verbatim>\<open>slice\<close> and \<^verbatim>\<open>startsWith\<close>
  count code units. A \<^verbatim>\<open>Buffer\<close> is a sequence of bytes.
\<close>

type_synonym byte = "8 word"
type_synonym jsstring = "16 word list"

definition lit :: "string \<Rightarrow> jsstring" where
  "lit s = map (\<lambda>c. of_nat (of_char c)) s"

text \<open>\<^verbatim>\<open>s.slice(0, n)\<close> on a string.\<close>

definition slice0 :: "nat \<Rightarrow> 'a list \<Rightarrow> 'a list" where
  "slice0 n s = take n s"

text \<open>\<^verbatim>\<open>s.startsWith(p)\<close>.\<close>

definition startsWith :: "jsstring \<Rightarrow> jsstring \<Rightarrow> bool" where
  "startsWith s p = (take (length p) s = p)"

subsubsection \<open>Base64, as \<^verbatim>\<open>Buffer\<close> implements it\<close>

text \<open>
  \<^verbatim>\<open>buf.toString('base64')\<close> is the standard alphabet of RFC 4648 with \<^verbatim>\<open>=\<close> padding.
  \<^verbatim>\<open>Buffer.from(s, 'base64')\<close> is forgiving: it accepts the URL-safe symbols as well,
  skips every other character (the line breaks the content API inserts, for one) and
  stops at the first \<^verbatim>\<open>=\<close>; a trailing group of two or three symbols yields one or two
  bytes, a single trailing symbol none. The decoder looks at the low byte of a code
  unit only, so a code unit above 255 counts as the character of its low byte.
\<close>

definition b64_code :: "nat \<Rightarrow> nat" where
  "b64_code n =
     (if n < 26 then 65 + n
      else if n < 52 then 97 + (n - 26)
      else if n < 62 then 48 + (n - 52)
      else if n = 62 then 43
      else 47)"

definition b64_char :: "nat \<Rightarrow> 16 word" where
  "b64_char n = of_nat (b64_code n)"

definition b64_pad :: "16 word" where
  "b64_pad = 61"

fun base64_encode :: "byte list \<Rightarrow> jsstring" where
  "base64_encode [] = []"
| "base64_encode [a] =
     [b64_char (unat a div 4), b64_char (unat a mod 4 * 16), b64_pad, b64_pad]"
| "base64_encode [a, b] =
     [b64_char (unat a div 4), b64_char (unat a mod 4 * 16 + unat b div 16),
      b64_char (unat b mod 16 * 4), b64_pad]"
| "base64_encode (a # b # c # rest) =
     [b64_char (unat a div 4), b64_char (unat a mod 4 * 16 + unat b div 16),
      b64_char (unat b mod 16 * 4 + unat c div 64), b64_char (unat c mod 64)]
     @ base64_encode rest"

definition low_byte :: "16 word \<Rightarrow> nat" where
  "low_byte c = unat c mod 256"

definition unbase64 :: "16 word \<Rightarrow> nat option" where
  "unbase64 c =
     (let n = low_byte c in
      if 65 \<le> n \<and> n \<le> 90 then Some (n - 65)
      else if 97 \<le> n \<and> n \<le> 122 then Some (n - 71)
      else if 48 \<le> n \<and> n \<le> 57 then Some (n + 4)
      else if n = 43 \<or> n = 45 then Some 62
      else if n = 47 \<or> n = 95 then Some 63
      else None)"

fun b64_groups :: "nat list \<Rightarrow> byte list" where
  "b64_groups (s0 # s1 # s2 # s3 # rest) =
     [of_nat (s0 * 4 + s1 div 16), of_nat (s1 mod 16 * 16 + s2 div 4),
      of_nat (s2 mod 4 * 64 + s3)] @ b64_groups rest"
| "b64_groups [s0, s1, s2] =
     [of_nat (s0 * 4 + s1 div 16), of_nat (s1 mod 16 * 16 + s2 div 4)]"
| "b64_groups [s0, s1] = [of_nat (s0 * 4 + s1 div 16)]"
| "b64_groups _ = []"

fun b64_symbols :: "jsstring \<Rightarrow> nat list" where
  "b64_symbols [] = []"
| "b64_symbols (c # cs) =
     (case unbase64 c of
        Some n \<Rightarrow> n # b64_symbols cs
      | None \<Rightarrow> if low_byte c = 61 then [] else b64_symbols cs)"

definition base64_decode :: "jsstring \<Rightarrow> byte list" where
  "base64_decode s = b64_groups (b64_symbols s)"

subsubsection \<open>UTF-8, as \<^verbatim>\<open>Buffer\<close> implements it\<close>

text \<open>
  \<^verbatim>\<open>Buffer.from(s)\<close> encodes the code units of \<^verbatim>\<open>s\<close> as UTF-8; a surrogate pair is one
  four-byte sequence and a surrogate on its own becomes U+FFFD. \<^verbatim>\<open>buf.toString('utf-8')\<close>
  decodes, with one U+FFFD for every maximal ill-formed prefix, and never fails.
\<close>

definition is_high :: "nat \<Rightarrow> bool" where
  "is_high n = (55296 \<le> n \<and> n < 56320)"

definition is_low :: "nat \<Rightarrow> bool" where
  "is_low n = (56320 \<le> n \<and> n < 57344)"

definition utf8_of_cp :: "nat \<Rightarrow> byte list" where
  "utf8_of_cp n =
     (if n < 128 then [of_nat n]
      else if n < 2048 then [of_nat (192 + n div 64), of_nat (128 + n mod 64)]
      else if n < 65536 then
        [of_nat (224 + n div 4096), of_nat (128 + n div 64 mod 64), of_nat (128 + n mod 64)]
      else
        [of_nat (240 + n div 262144), of_nat (128 + n div 4096 mod 64),
         of_nat (128 + n div 64 mod 64), of_nat (128 + n mod 64)])"

definition replacement :: nat where
  "replacement = 65533"

fun utf8_encode :: "jsstring \<Rightarrow> byte list" where
  "utf8_encode [] = []"
| "utf8_encode (u # us) =
     (let n = unat u in
      if is_high n then
        (case us of
           [] \<Rightarrow> utf8_of_cp replacement
         | v # vs \<Rightarrow>
             if is_low (unat v)
             then utf8_of_cp (65536 + (n - 55296) * 1024 + (unat v - 56320)) @ utf8_encode vs
             else utf8_of_cp replacement @ utf8_encode us)
      else if is_low n then utf8_of_cp replacement @ utf8_encode us
      else utf8_of_cp n @ utf8_encode us)"

definition units_of_cp :: "nat \<Rightarrow> jsstring" where
  "units_of_cp n =
     (if n < 65536 then [of_nat n]
      else [of_nat (55296 + (n - 65536) div 1024), of_nat (56320 + (n - 65536) mod 1024)])"

definition in_range :: "nat \<Rightarrow> nat \<Rightarrow> byte \<Rightarrow> bool" where
  "in_range lo hi b = (lo \<le> unat b \<and> unat b \<le> hi)"

text \<open>The bounds of the second byte after a given lead byte (Unicode table 3-7).\<close>

definition second_lo :: "nat \<Rightarrow> nat" where
  "second_lo a = (if a = 224 then 160 else if a = 240 then 144 else 128)"

definition second_hi :: "nat \<Rightarrow> nat" where
  "second_hi a = (if a = 237 then 159 else if a = 244 then 143 else 191)"

fun utf8_decode :: "byte list \<Rightarrow> jsstring" where
  "utf8_decode [] = []"
| "utf8_decode (b0 # bs) =
     (let a = unat b0 in
      if a < 128 then of_nat a # utf8_decode bs
      else if 194 \<le> a \<and> a \<le> 223 then
        (case bs of
           [] \<Rightarrow> units_of_cp replacement
         | b1 # r1 \<Rightarrow>
             if in_range 128 191 b1
             then units_of_cp ((a - 192) * 64 + (unat b1 - 128)) @ utf8_decode r1
             else units_of_cp replacement @ utf8_decode bs)
      else if 224 \<le> a \<and> a \<le> 239 then
        (case bs of
           [] \<Rightarrow> units_of_cp replacement
         | b1 # r1 \<Rightarrow>
             if in_range (second_lo a) (second_hi a) b1 then
               (case r1 of
                  [] \<Rightarrow> units_of_cp replacement
                | b2 # r2 \<Rightarrow>
                    if in_range 128 191 b2
                    then units_of_cp ((a - 224) * 4096 + (unat b1 - 128) * 64 + (unat b2 - 128))
                         @ utf8_decode r2
                    else units_of_cp replacement @ utf8_decode r1)
             else units_of_cp replacement @ utf8_decode bs)
      else if 240 \<le> a \<and> a \<le> 244 then
        (case bs of
           [] \<Rightarrow> units_of_cp replacement
         | b1 # r1 \<Rightarrow>
             if in_range (second_lo a) (second_hi a) b1 then
               (case r1 of
                  [] \<Rightarrow> units_of_cp replacement
                | b2 # r2 \<Rightarrow>
                    if in_range 128 191 b2 then
                      (case r2 of
                         [] \<Rightarrow> units_of_cp replacement
                       | b3 # r3 \<Rightarrow>
                           if in_range 128 191 b3
                           then units_of_cp ((a - 240) * 262144 + (unat b1 - 128) * 4096
                                  + (unat b2 - 128) * 64 + (unat b3 - 128))
                                @ utf8_decode r3
                           else units_of_cp replacement @ utf8_decode r2)
                    else units_of_cp replacement @ utf8_decode r1)
             else units_of_cp replacement @ utf8_decode bs)
      else units_of_cp replacement @ utf8_decode bs)"

text \<open>\<^verbatim>\<open>s.isWellFormed()\<close>: every surrogate is half of a pair.\<close>

fun isWellFormed :: "jsstring \<Rightarrow> bool" where
  "isWellFormed [] = True"
| "isWellFormed (u # us) =
     (if is_high (unat u) then
        (case us of [] \<Rightarrow> False | v # vs \<Rightarrow> is_low (unat v) \<and> isWellFormed vs)
      else \<not> is_low (unat u) \<and> isWellFormed us)"

subsection \<open>JavaScript values\<close>

text \<open>
  The classifier's answer and the stored collections are whatever \<^verbatim>\<open>JSON.parse\<close>
  returns, so the code works on untyped values. An array carries its elements and the
  named properties assigned to it afterwards (the document handler assigns
  \<^verbatim>\<open>category\<close> to whatever the classifier returned).
\<close>

datatype jsvalue =
    Undefined
  | Null
  | Bool bool
  | Num real
  | Str jsstring
  | Arr "jsvalue list" "(jsstring \<times> jsvalue) list"
  | Obj "(jsstring \<times> jsvalue) list"

datatype error =
    HttpError nat jsstring
  | Other jsstring
  | TypeError
  | SyntaxError
  | NoAIService

text \<open>\<^verbatim>\<open>error.status\<close>: only the errors of an HTTP request carry one.\<close>

fun status :: "error \<Rightarrow> nat option" where
  "status (HttpError n m) = Some n"
| "status _ = None"

text \<open>
  \<^verbatim>\<open>v.k\<close> for the property names the code reads (\<^verbatim>\<open>category\<close>, \<^verbatim>\<open>title_hindi\<close>,
  \<^verbatim>\<open>title_english\<close>, \<^verbatim>\<open>description_hindi\<close>, \<^verbatim>\<open>description_english\<close>, \<^verbatim>\<open>priority\<close>,
  \<^verbatim>\<open>tags\<close>); none of them is defined on a prototype, so the lookup sees own properties
  only. Reading a property of \<^verbatim>\<open>null\<close> or \<^verbatim>\<open>undefined\<close> throws.
\<close>

fun getp :: "jsvalue \<Rightarrow> jsstring \<Rightarrow> error + jsvalue" where
  "getp Undefined k = Inl TypeError"
| "getp Null k = Inl TypeError"
| "getp (Obj kvs) k = Inr (case map_of kvs k of None \<Rightarrow> Undefined | Some v \<Rightarrow> v)"
| "getp (Arr xs ps) k = Inr (case map_of ps k of None \<Rightarrow> Undefined | Some v \<Rightarrow> v)"
| "getp _ k = Inr Undefined"

text \<open>
  \<^verbatim>\<open>v.k = x\<close> in a module that is not in strict mode: it throws on \<^verbatim>\<open>null\<close> and
  \<^verbatim>\<open>undefined\<close> and is silently dropped on the other primitives.
\<close>

fun setp :: "jsvalue \<Rightarrow> jsstring \<Rightarrow> jsvalue \<Rightarrow> error + jsvalue" where
  "setp Undefined k x = Inl TypeError"
| "setp Null k x = Inl TypeError"
| "setp (Obj kvs) k x = Inr (Obj (AList.update k x kvs))"
| "setp (Arr xs ps) k x = Inr (Arr xs (AList.update k x ps))"
| "setp v k x = Inr v"

text \<open>\<^verbatim>\<open>a.unshift(x)\<close>: only an array has the method.\<close>

fun unshift :: "jsvalue \<Rightarrow> jsvalue \<Rightarrow> error + jsvalue" where
  "unshift (Arr xs ps) x = Inr (Arr (x # xs) ps)"
| "unshift _ x = Inl TypeError"

text \<open>
  \<^verbatim>\<open>v.slice(0, n)\<close>: strings and arrays have the method; the slice of an array is a new
  array, without the named properties of the old one.
\<close>

fun slice_js :: "jsvalue \<Rightarrow> nat \<Rightarrow> error + jsvalue" where
  "slice_js (Str s) n = Inr (Str (slice0 n s))"
| "slice_js (Arr xs ps) n = Inr (Arr (slice0 n xs) [])"
| "slice_js _ n = Inl TypeError"

text \<open>
  The conversion a template literal applies to an interpolated value. An object that
  shadows \<^verbatim>\<open>toString\<close> with a parsed (hence not callable) value cannot be converted;
  an array is joined with commas, \<^verbatim>\<open>null\<close> and \<^verbatim>\<open>undefined\<close> elements being empty.
  The rendering of a number is left to the parameter \<open>nts\<close>.
\<close>

definition has_key :: "(jsstring \<times> jsvalue) list \<Rightarrow> jsstring \<Rightarrow> bool" where
  "has_key kvs k = (map_of kvs k \<noteq> None)"

fun ToString :: "(real \<Rightarrow> jsstring) \<Rightarrow> jsvalue \<Rightarrow> error + jsstring"
  and join :: "(real \<Rightarrow> jsstring) \<Rightarrow> jsvalue list \<Rightarrow> error + jsstring" where
  "ToString nts Undefined = Inr (lit ''undefined'')"
| "ToString nts Null = Inr (lit ''null'')"
| "ToString nts (Bool b) = Inr (lit (if b then ''true'' else ''false''))"
| "ToString nts (Num r) = Inr (nts r)"
| "ToString nts (Str s) = Inr s"
| "ToString nts (Arr xs ps) =
     (if has_key ps (lit ''toString'') then Inl TypeError
      else if has_key ps (lit ''join'') then Inr (lit ''[object Array]'')
      else join nts xs)"
| "ToString nts (Obj kvs) =
     (if has_key kvs (lit ''toString'') then Inl TypeError
      else Inr (lit ''[object Object]''))"
| "join nts [] = Inr []"
| "join nts (x # xs) =
     (case (if x = Undefined \<or> x = Null then Inr [] else ToString nts x) of
        Inl e \<Rightarrow> Inl e
      | Inr s \<Rightarrow>
          if xs = [] then Inr s
          else (case join nts xs of Inl e \<Rightarrow> Inl e | Inr t \<Rightarrow> Inr (s @ lit '','' @ t)))"

text \<open>Truthiness of a value that is a string or \<^verbatim>\<open>null\<close>: the empty string is falsy.\<close>

definition truthy :: "jsstring option \<Rightarrow> bool" where
  "truthy s = (case s of None \<Rightarrow> False | Some t \<Rightarrow> t \<noteq> [])"

text \<open>\<^verbatim>\<open>a || b\<close> where \<^verbatim>\<open>a\<close> is a string or absent.\<close>

definition or_else :: "jsstring option \<Rightarrow> jsstring \<Rightarrow> jsstring" where
  "or_else a b = (case a of None \<Rightarrow> b | Some t \<Rightarrow> if t = [] then b else t)"

text \<open>\<^verbatim>\<open>a || b\<close> where \<^verbatim>\<open>b\<close> may be absent as well.\<close>

definition or_undefined :: "jsstring option \<Rightarrow> jsstring option \<Rightarrow> jsstring option" where
  "or_undefined a b = (if truthy a then a else b)"

text \<open>A string or \<^verbatim>\<open>undefined\<close> inside a template literal.\<close>

definition template_text :: "jsstring option \<Rightarrow> jsstring" where
  "template_text a = (case a of None \<Rightarrow> lit ''undefined'' | Some t \<Rightarrow> t)"

subsection \<open>The environment and the actions of a handler\<close>

text \<open>The prompt is one template with two holes: the text and the image flag.\<close>

datatype prompt = Prompt jsstring bool

text \<open>
  The commit messages and the replies are templates too; a constructor stands for the
  fixed text of each and carries what is interpolated: the file name or the sliced
  title of a commit message; category, title and identifier or path of a success reply
  (lines 418, 468 and 510 of the source); the error of a failure reply (lines 430, 480
  and 520). \<open>NotAuthorizedText\<close> is the notice of the text handler (line 401),
  \<open>NotAuthorizedMedia\<close> the shorter one of the photo and document handlers.
\<close>

datatype commit_message =
    AddImage jsstring
  | AddNews jsstring
  | AddGalleryPhoto jsstring
  | AddDocument jsstring

datatype reply =
    NotAuthorizedText
  | NotAuthorizedMedia
  | ProcessingText
  | ProcessingPhoto
  | ProcessingDocument
  | TextAdded jsstring jsstring jsstring
  | PhotoUploaded jsstring jsstring jsstring
  | DocumentUploaded jsstring jsstring
  | TextError error
  | PhotoError error
  | DocumentError error

text \<open>
  The parameters of \<^verbatim>\<open>createOrUpdateFileContents\<close> (owner, repository and branch are
  constants of the configuration and left out); \<open>sha\<close> is \<open>None\<close> when the field is not
  set. The response of \<^verbatim>\<open>getContent\<close> has no \<^verbatim>\<open>content\<close> when the path is a directory.
\<close>

record put_params =
  path :: jsstring
  message :: commit_message
  content :: jsstring
  sha :: "jsstring option"

record response =
  data_content :: "jsstring option"
  data_sha :: jsstring

datatype action =
    CallOpenAI prompt
  | CallGemini prompt
  | GetContent jsstring
  | PutContent put_params
  | Download jsstring
  | Reply reply

text \<open>An entry of \<^verbatim>\<open>config.telegram.adminIds\<close>: \<^verbatim>\<open>parseInt\<close> yields an integer or NaN.\<close>

datatype admin_id = NaN | Id int

text \<open>The two places where a handler reads the clock and draws a UUID.\<close>

datatype site = AtFilename | AtRecord

text \<open>
  \<open>openai\<close> and \<open>genAI\<close> are \<open>None\<close> when the key is not configured; otherwise they
  answer a prompt with the message content (a string or \<^verbatim>\<open>null\<close>), respectively the
  response text, or fail. \<open>JSON_parse\<close> is \<open>None\<close> where \<^verbatim>\<open>JSON.parse\<close> throws.
  \<open>download\<close> is \<^verbatim>\<open>getFileLink\<close> followed by \<^verbatim>\<open>axios.get\<close>. \<open>Date_now\<close> is the number of
  milliseconds since the epoch (not negative), \<open>uuidv4\<close> the 128 bits of a UUID,
  \<open>toLocaleDateString\<close> the formatted date of the day.
\<close>

record env =
  adminIds :: "admin_id list"
  openai :: "(prompt \<Rightarrow> error + jsstring option) option"
  genAI :: "(prompt \<Rightarrow> error + jsstring) option"
  JSON_parse :: "jsstring \<Rightarrow> jsvalue option"
  JSON_stringify :: "jsvalue \<Rightarrow> jsstring"
  Number_toString :: "real \<Rightarrow> jsstring"
  getContent :: "jsstring \<Rightarrow> error + response"
  createOrUpdateFileContents :: "put_params \<Rightarrow> error option"
  download :: "jsstring \<Rightarrow> error + byte list"
  sharp :: "byte list \<Rightarrow> error + byte list"
  sendMessage :: "reply \<Rightarrow> error option"
  Date_now :: "site \<Rightarrow> nat"
  uuidv4 :: "site \<Rightarrow> 128 word"
  toLocaleDateString :: jsstring

text \<open>
  A computation performs a sequence of actions and then returns a value or throws.
\<close>

type_synonym 'a io = "action list \<times> (error + 'a)"

definition ret :: "'a \<Rightarrow> 'a io" where
  "ret x = ([], Inr x)"

definition throw :: "error \<Rightarrow> 'a io" where
  "throw e = ([], Inl e)"

definition lift :: "error + 'a \<Rightarrow> 'a io" where
  "lift r = ([], r)"

definition call :: "action \<Rightarrow> error + 'a \<Rightarrow> 'a io" where
  "call a r = ([a], r)"

definition io_bind :: "'a io \<Rightarrow> ('a \<Rightarrow> 'b io) \<Rightarrow> 'b io" where
  "io_bind m f =
     (case m of
        (t, Inl e) \<Rightarrow> (t, Inl e)
      | (t, Inr x) \<Rightarrow> (case f x of (t', r) \<Rightarrow> (t @ t', r)))"

definition try_catch :: "'a io \<Rightarrow> (error \<Rightarrow> 'a io) \<Rightarrow> 'a io" where
  "try_catch m h =
     (case m of
        (t, Inl e) \<Rightarrow> (case h e of (t', r) \<Rightarrow> (t @ t', r))
      | (t, Inr x) \<Rightarrow> (t, Inr x))"

definition parse :: "env \<Rightarrow> jsstring \<Rightarrow> error + jsvalue" where
  "parse env s = (case JSON_parse env s of None \<Rightarrow> Inl SyntaxError | Some v \<Rightarrow> Inr v)"

definition reply :: "env \<Rightarrow> reply \<Rightarrow> unit io" where
  "reply env r = call (Reply r) (case sendMessage env r of None \<Rightarrow> Inr () | Some e \<Rightarrow> Inl e)"

text \<open>\<^verbatim>\<open>${v.k}\<close> inside a template literal.\<close>

definition interpolate :: "env \<Rightarrow> jsvalue \<Rightarrow> jsstring \<Rightarrow> jsstring io" where
  "interpolate env v k =
     lift (case getp v k of Inl e \<Rightarrow> Inl e | Inr x \<Rightarrow> ToString (Number_toString env) x)"

subsection \<open>Numbers and identifiers as text\<close>

text \<open>
  The decimal digits of a non-negative integer, as a template literal prints the value
  of \<^verbatim>\<open>Date.now()\<close>, and the text of a UUID: 32 lower-case hexadecimal digits in groups
  of 8, 4, 4, 4 and 12.
\<close>

function decimal :: "nat \<Rightarrow> jsstring" where
  "decimal n = (if n < 10 then [of_nat (48 + n)] else decimal (n div 10) @ [of_nat (48 + n mod 10)])"
  by pat_completeness auto
termination
  by (relation "measure id") auto

definition hex_digit :: "nat \<Rightarrow> 16 word" where
  "hex_digit d = of_nat (if d < 10 then 48 + d else 87 + d)"

fun hex :: "nat \<Rightarrow> nat \<Rightarrow> jsstring" where
  "hex 0 n = []"
| "hex (Suc k) n = hex k (n div 16) @ [hex_digit (n mod 16)]"

definition uuid_string :: "128 word \<Rightarrow> jsstring" where
  "uuid_string w =
     (let n = unat w in
      hex 8 (n div 2 ^ 96) @ lit ''-'' @ hex 4 (n div 2 ^ 80) @ lit ''-'' @
      hex 4 (n div 2 ^ 64) @ lit ''-'' @ hex 4 (n div 2 ^ 48) @ lit ''-'' @ hex 12 n)"

subsection \<open>The classifier: \<^verbatim>\<open>analyzeContent\<close>\<close>

text \<open>
  \<^verbatim>\<open>text.match(/\{[\s\S]*\}/)\<close>: the match starts at the first opening brace and, the
  star being greedy, ends at the last closing brace; there is none when no closing
  brace follows the first opening one.
\<close>

definition brace_open :: "16 word" where
  "brace_open = 123"

definition brace_close :: "16 word" where
  "brace_close = 125"

definition jsonMatch :: "jsstring \<Rightarrow> jsstring option" where
  "jsonMatch t =
     (let from_open = dropWhile (\<lambda>c. c \<noteq> brace_open) t in
      if brace_close \<in> set from_open
      then Some (rev (dropWhile (\<lambda>c. c \<noteq> brace_close) (rev from_open)))
      else None)"

text \<open>The record of the \<^verbatim>\<open>catch\<close> block.\<close>

definition default_analysis :: "jsstring \<Rightarrow> bool \<Rightarrow> jsvalue" where
  "default_analysis txt hasImage =
     Obj [(lit ''category'', Str (if hasImage then lit ''gallery'' else lit ''news'')),
          (lit ''title_hindi'', Str (slice0 50 txt)),
          (lit ''title_english'', Str (slice0 50 txt)),
          (lit ''description_hindi'', Str txt),
          (lit ''description_english'', Str txt),
          (lit ''suggested_section'', Str (lit ''general'')),
          (lit ''priority'', Str (lit ''medium'')),
          (lit ''tags'', Arr [] [])]"

text \<open>
  The body of the \<^verbatim>\<open>try\<close> block. \<^verbatim>\<open>JSON.parse\<close> converts its argument to a string
  first, so a \<^verbatim>\<open>null\<close> content is parsed as the text \<^verbatim>\<open>null\<close>.
\<close>

definition analyze_try :: "env \<Rightarrow> prompt \<Rightarrow> jsvalue io" where
  "analyze_try env prompt =
     (case openai env of
        Some create \<Rightarrow>
          io_bind (call (CallOpenAI prompt) (create prompt)) (\<lambda>c.
            lift (parse env (case c of None \<Rightarrow> lit ''null'' | Some t \<Rightarrow> t)))
      | None \<Rightarrow>
          (case genAI env of
             Some generateContent \<Rightarrow>
               io_bind (call (CallGemini prompt) (generateContent prompt)) (\<lambda>t.
                 case jsonMatch t of
                   Some m \<Rightarrow> lift (parse env m)
                 | None \<Rightarrow> throw NoAIService)
           | None \<Rightarrow> throw NoAIService))"

definition analyzeContent :: "env \<Rightarrow> jsstring \<Rightarrow> bool \<Rightarrow> jsvalue io" where
  "analyzeContent env txt hasImage =
     try_catch (analyze_try env (Prompt txt hasImage))
       (\<lambda>error. ret (default_analysis txt hasImage))"

text \<open>
  The document handler can call \<^verbatim>\<open>analyzeContent\<close> with \<^verbatim>\<open>undefined\<close> (no caption and
  no file name). The template then prints the text \<^verbatim>\<open>undefined\<close>, and in the
  \<^verbatim>\<open>catch\<close> block \<^verbatim>\<open>text.slice\<close> throws: a failure of the \<^verbatim>\<open>try\<close> block becomes a
  \<^verbatim>\<open>TypeError\<close> of the call.
\<close>

definition analyzeContent_opt :: "env \<Rightarrow> jsstring option \<Rightarrow> bool \<Rightarrow> jsvalue io" where
  "analyzeContent_opt env t hasImage =
     (case t of
        Some s \<Rightarrow> analyzeContent env s hasImage
      | None \<Rightarrow>
          try_catch (analyze_try env (Prompt (lit ''undefined'') hasImage))
            (\<lambda>error. throw TypeError))"

subsection \<open>The store client\<close>

definition getFileFromGitHub :: "env \<Rightarrow> jsstring \<Rightarrow> (jsstring option \<times> jsstring option) io" where
  "getFileFromGitHub env p =
     try_catch
       (io_bind (call (GetContent p) (getContent env p)) (\<lambda>response.
          case data_content response of
            None \<Rightarrow> throw TypeError
          | Some c \<Rightarrow> ret (Some (utf8_decode (base64_decode c)), Some (data_sha response))))
       (\<lambda>error. if status error = Some 404 then ret (None, None) else throw error)"

text \<open>
  The content handed to \<^verbatim>\<open>updateFileOnGitHub\<close> is a string (a serialized collection)
  or a buffer (an image, a document); \<^verbatim>\<open>Buffer.from\<close> encodes the one and copies the
  other. No caller looks at the response data the function returns, so the model
  returns nothing.
\<close>

datatype payload = StringData jsstring | BufferData "byte list"

fun Buffer_from :: "payload \<Rightarrow> byte list" where
  "Buffer_from (StringData s) = utf8_encode s"
| "Buffer_from (BufferData b) = b"

definition update_params ::
  "jsstring \<Rightarrow> payload \<Rightarrow> commit_message \<Rightarrow> jsstring option \<Rightarrow> put_params" where
  "update_params p c msg s =
     \<lparr>path = p, message = msg, content = base64_encode (Buffer_from c),
      sha = (if truthy s then s else None)\<rparr>"

definition updateFileOnGitHub ::
  "env \<Rightarrow> jsstring \<Rightarrow> payload \<Rightarrow> commit_message \<Rightarrow> jsstring option \<Rightarrow> unit io" where
  "updateFileOnGitHub env p c msg s =
     (let params = update_params p c msg s in
      call (PutContent params)
        (case createOrUpdateFileContents env params of None \<Rightarrow> Inr () | Some e \<Rightarrow> Inl e))"

definition uploadImageToGitHub :: "env \<Rightarrow> byte list \<Rightarrow> jsstring \<Rightarrow> jsstring io" where
  "uploadImageToGitHub env imageBuffer filename =
     io_bind (lift (sharp env imageBuffer)) (\<lambda>optimizedBuffer.
       let p = lit ''images/'' @ filename in
       io_bind (updateFileOnGitHub env p (BufferData optimizedBuffer) (AddImage filename) None)
         (\<lambda>_. ret p))"

subsection \<open>The collections: \<^verbatim>\<open>addNewsToWebsite\<close> and \<^verbatim>\<open>addPhotoToGallery\<close>\<close>

text \<open>
  \<^verbatim>\<open>newsHTML\<close> is a template; the record keeps what is interpolated, in the order of
  evaluation. The image line is there when \<^verbatim>\<open>imagePath\<close> is truthy.
\<close>

record news_html =
  html_id :: jsstring
  html_date :: jsstring
  html_title_hindi :: jsstring
  html_title_english :: jsstring
  html_image :: "(jsstring \<times> jsstring) option"
  html_description_hindi :: jsstring
  html_description_english :: jsstring

definition render_news ::
  "env \<Rightarrow> jsstring \<Rightarrow> jsstring \<Rightarrow> jsvalue \<Rightarrow> jsstring option \<Rightarrow> news_html io" where
  "render_news env newsId date analysis imagePath =
     io_bind (interpolate env analysis (lit ''title_hindi'')) (\<lambda>th.
     io_bind (interpolate env analysis (lit ''title_english'')) (\<lambda>te.
     io_bind (if truthy imagePath
              then io_bind (interpolate env analysis (lit ''title_hindi''))
                     (\<lambda>alt. ret (Some (the imagePath, alt)))
              else ret None) (\<lambda>img.
     io_bind (interpolate env analysis (lit ''description_hindi'')) (\<lambda>dh.
     io_bind (interpolate env analysis (lit ''description_english'')) (\<lambda>de.
       ret \<lparr>html_id = newsId, html_date = date, html_title_hindi = th,
            html_title_english = te, html_image = img, html_description_hindi = dh,
            html_description_english = de\<rparr>)))))"

text \<open>The stored collection, or the empty array when there is none or it does not parse.\<close>

definition load_collection :: "env \<Rightarrow> jsstring option \<Rightarrow> jsvalue" where
  "load_collection env c =
     (if truthy c
      then (case parse env (the c) of Inl e \<Rightarrow> Arr [] [] | Inr v \<Rightarrow> v)
      else Arr [] [])"

definition of_path :: "jsstring option \<Rightarrow> jsvalue" where
  "of_path p = (case p of None \<Rightarrow> Null | Some s \<Rightarrow> Str s)"

definition news_item ::
  "jsstring \<Rightarrow> jsstring \<Rightarrow> nat \<Rightarrow> jsvalue \<Rightarrow> jsstring option \<Rightarrow> error + jsvalue" where
  "news_item newsId date now analysis imagePath =
     (case getp analysis (lit ''title_hindi'') of Inl e \<Rightarrow> Inl e | Inr th \<Rightarrow>
      case getp analysis (lit ''title_english'') of Inl e \<Rightarrow> Inl e | Inr te \<Rightarrow>
      case getp analysis (lit ''description_hindi'') of Inl e \<Rightarrow> Inl e | Inr dh \<Rightarrow>
      case getp analysis (lit ''description_english'') of Inl e \<Rightarrow> Inl e | Inr de \<Rightarrow>
      case getp analysis (lit ''category'') of Inl e \<Rightarrow> Inl e | Inr cat \<Rightarrow>
      case getp analysis (lit ''priority'') of Inl e \<Rightarrow> Inl e | Inr pri \<Rightarrow>
      case getp analysis (lit ''tags'') of Inl e \<Rightarrow> Inl e | Inr tags \<Rightarrow>
        Inr (Obj [(lit ''id'', Str newsId),
                  (lit ''date'', Str date),
                  (lit ''timestamp'', Num (of_nat now)),
                  (lit ''title_hindi'', th),
                  (lit ''title_english'', te),
                  (lit ''description_hindi'', dh),
                  (lit ''description_english'', de),
                  (lit ''image'', of_path imagePath),
                  (lit ''category'', cat),
                  (lit ''priority'', pri),
                  (lit ''tags'', tags)]))"

text \<open>The interpolation \<^verbatim>\<open>${analysis.title_english.slice(0, n)}\<close> of a commit message.\<close>

definition title_slice :: "env \<Rightarrow> jsvalue \<Rightarrow> nat \<Rightarrow> jsstring io" where
  "title_slice env analysis n =
     lift (case getp analysis (lit ''title_english'') of Inl e \<Rightarrow> Inl e | Inr te \<Rightarrow>
           case slice_js te n of Inl e \<Rightarrow> Inl e | Inr v \<Rightarrow> ToString (Number_toString env) v)"

definition addNewsToWebsite ::
  "env \<Rightarrow> jsvalue \<Rightarrow> jsstring option \<Rightarrow> (jsstring \<times> news_html) io" where
  "addNewsToWebsite env analysis imagePath =
     (let newsId = slice0 8 (uuid_string (uuidv4 env AtRecord));
          date = toLocaleDateString env in
      io_bind (render_news env newsId date analysis imagePath) (\<lambda>newsHTML.
      io_bind (getFileFromGitHub env (lit ''data/news.json'')) (\<lambda>(c, s).
      io_bind (lift (news_item newsId date (Date_now env AtRecord) analysis imagePath)) (\<lambda>item.
      io_bind (lift (unshift (load_collection env c) item)) (\<lambda>newsData.
      io_bind (lift (slice_js newsData 50)) (\<lambda>newsData.
      io_bind (title_slice env analysis 50) (\<lambda>title.
      io_bind (updateFileOnGitHub env (lit ''data/news.json'')
                 (StringData (JSON_stringify env newsData)) (AddNews title) s) (\<lambda>_.
        ret (newsId, newsHTML)))))))))"

definition gallery_item ::
  "jsstring \<Rightarrow> jsstring \<Rightarrow> jsvalue \<Rightarrow> nat \<Rightarrow> jsstring \<Rightarrow> error + jsvalue" where
  "gallery_item photoId imagePath analysis now date =
     (case getp analysis (lit ''title_hindi'') of Inl e \<Rightarrow> Inl e | Inr th \<Rightarrow>
      case getp analysis (lit ''title_english'') of Inl e \<Rightarrow> Inl e | Inr te \<Rightarrow>
      case getp analysis (lit ''category'') of Inl e \<Rightarrow> Inl e | Inr cat \<Rightarrow>
      case getp analysis (lit ''tags'') of Inl e \<Rightarrow> Inl e | Inr tags \<Rightarrow>
        Inr (Obj [(lit ''id'', Str photoId),
                  (lit ''path'', Str imagePath),
                  (lit ''title_hindi'', th),
                  (lit ''title_english'', te),
                  (lit ''category'', cat),
                  (lit ''tags'', tags),
                  (lit ''timestamp'', Num (of_nat now)),
                  (lit ''date'', Str date)]))"

definition addPhotoToGallery :: "env \<Rightarrow> jsstring \<Rightarrow> jsvalue \<Rightarrow> jsstring io" where
  "addPhotoToGallery env imagePath analysis =
     io_bind (getFileFromGitHub env (lit ''data/gallery.json'')) (\<lambda>(c, s).
       let photoId = slice0 8 (uuid_string (uuidv4 env AtRecord)) in
       io_bind (lift (gallery_item photoId imagePath analysis (Date_now env AtRecord)
                        (toLocaleDateString env))) (\<lambda>item.
       io_bind (lift (unshift (load_collection env c) item)) (\<lambda>galleryData.
       io_bind (title_slice env analysis 30) (\<lambda>title.
       io_bind (updateFileOnGitHub env (lit ''data/gallery.json'')
                  (StringData (JSON_stringify env galleryData)) (AddGalleryPhoto title) s) (\<lambda>_.
         ret photoId)))))"

subsection \<open>The handlers\<close>

text \<open>
  \<^verbatim>\<open>ctx.from?.id\<close> is an integer, or \<^verbatim>\<open>undefined\<close> (\<open>None\<close>) when the update has no
  sender. \<^verbatim>\<open>includes\<close> compares with SameValueZero: \<^verbatim>\<open>undefined\<close> equals no entry of
  a list of numbers.
\<close>

definition includes_id :: "admin_id list \<Rightarrow> int option \<Rightarrow> bool" where
  "includes_id ids userId = (case userId of None \<Rightarrow> False | Some n \<Rightarrow> Id n \<in> set ids)"

definition isAdmin :: "env \<Rightarrow> int option \<Rightarrow> bool" where
  "isAdmin env userId =
     (if length (adminIds env) = 0 then True else includes_id (adminIds env) userId)"

text \<open>
  The \<^verbatim>\<open>catch\<close> of a handler sends one reply with the error and does not wait for it.
  What a handler does is the sequence of its actions.
\<close>

definition handle :: "unit io \<Rightarrow> (error \<Rightarrow> reply) \<Rightarrow> action list" where
  "handle m failure =
     (case m of (t, Inr _) \<Rightarrow> t | (t, Inl e) \<Rightarrow> t @ [Reply (failure e)])"

definition text_try :: "env \<Rightarrow> jsstring \<Rightarrow> unit io" where
  "text_try env txt =
     io_bind (reply env ProcessingText) (\<lambda>_.
     io_bind (analyzeContent env txt False) (\<lambda>analysis.
     io_bind (addNewsToWebsite env analysis None) (\<lambda>(newsId, newsHTML).
     io_bind (interpolate env analysis (lit ''category'')) (\<lambda>cat.
     io_bind (interpolate env analysis (lit ''title_hindi'')) (\<lambda>th.
       reply env (TextAdded cat th newsId))))))"

definition on_text :: "env \<Rightarrow> int option \<Rightarrow> jsstring \<Rightarrow> action list" where
  "on_text env userId txt =
     (if \<not> isAdmin env userId then fst (reply env NotAuthorizedText)
      else if startsWith txt (lit ''/'') then []
      else handle (text_try env txt) TextError)"

text \<open>
  \<^verbatim>\<open>ctx.message.photo\<close> lists the file identifiers of the sizes on offer; the last one
  is taken, and reading \<^verbatim>\<open>file_id\<close> of the last element of an empty list throws.
\<close>

definition last_photo :: "jsstring list \<Rightarrow> error + jsstring" where
  "last_photo photo = (if photo = [] then Inl TypeError else Inr (last photo))"

definition fetch :: "env \<Rightarrow> jsstring \<Rightarrow> byte list io" where
  "fetch env file_id = call (Download file_id) (download env file_id)"

definition image_filename :: "env \<Rightarrow> jsstring" where
  "image_filename env =
     decimal (Date_now env AtFilename) @ lit ''_''
     @ slice0 8 (uuid_string (uuidv4 env AtFilename)) @ lit ''.jpg''"

definition is_gallery_category :: "jsvalue \<Rightarrow> bool" where
  "is_gallery_category c = (c = Str (lit ''gallery'') \<or> c = Str (lit ''heritage''))"

definition photo_try :: "env \<Rightarrow> jsstring list \<Rightarrow> jsstring option \<Rightarrow> unit io" where
  "photo_try env photo caption =
     io_bind (reply env ProcessingPhoto) (\<lambda>_.
     io_bind (lift (last_photo photo)) (\<lambda>file_id.
     let cap = or_else caption (lit ''Village Photo'') in
     io_bind (fetch env file_id) (\<lambda>imageBuffer.
     io_bind (analyzeContent env cap True) (\<lambda>analysis.
     let filename = image_filename env in
     io_bind (uploadImageToGitHub env imageBuffer filename) (\<lambda>imagePath.
     io_bind (lift (getp analysis (lit ''category''))) (\<lambda>c.
     io_bind (if is_gallery_category c
              then io_bind (addPhotoToGallery env imagePath analysis) (\<lambda>_. ret ())
              else io_bind (addNewsToWebsite env analysis (Some imagePath)) (\<lambda>_. ret ())) (\<lambda>_.
     io_bind (interpolate env analysis (lit ''category'')) (\<lambda>cat.
     io_bind (interpolate env analysis (lit ''title_hindi'')) (\<lambda>th.
       reply env (PhotoUploaded cat th imagePath))))))))))"

definition on_photo :: "env \<Rightarrow> int option \<Rightarrow> jsstring list \<Rightarrow> jsstring option \<Rightarrow> action list" where
  "on_photo env userId photo caption =
     (if \<not> isAdmin env userId then fst (reply env NotAuthorizedMedia)
      else handle (photo_try env photo caption) PhotoError)"

text \<open>
  \<^verbatim>\<open>ctx.message.document\<close>: the file name is optional (\<open>None\<close> when the sender's client
  gave none), and so is the caption of the message.
\<close>

record document =
  file_id :: jsstring
  file_name :: "jsstring option"

definition document_try :: "env \<Rightarrow> document \<Rightarrow> jsstring option \<Rightarrow> unit io" where
  "document_try env doc caption =
     io_bind (reply env ProcessingDocument) (\<lambda>_.
     let cap = or_undefined caption (file_name doc) in
     io_bind (fetch env (file_id doc)) (\<lambda>docBuffer.
     let p = lit ''documents/'' @ template_text (file_name doc) in
     io_bind (updateFileOnGitHub env p (BufferData docBuffer)
                (AddDocument (template_text (file_name doc))) None) (\<lambda>_.
     io_bind (analyzeContent_opt env cap False) (\<lambda>analysis.
     io_bind (lift (setp analysis (lit ''category'') (Str (lit ''document'')))) (\<lambda>analysis.
     io_bind (addNewsToWebsite env analysis None) (\<lambda>_.
       reply env (DocumentUploaded (template_text (file_name doc)) p)))))))"

definition on_document :: "env \<Rightarrow> int option \<Rightarrow> document \<Rightarrow> jsstring option \<Rightarrow> action list" where
  "on_document env userId doc caption =
     (if \<not> isAdmin env userId then fst (reply env NotAuthorizedMedia)
      else handle (document_try env doc caption) DocumentError)"

subsection \<open>Notions used in the statements\<close>

text \<open>
  A provider is unavailable for a prompt when it is not configured, when its call
  fails, or when nothing that parses comes out of its answer.
\<close>

definition openai_unavailable :: "env \<Rightarrow> prompt \<Rightarrow> bool" where
  "openai_unavailable env p =
     (case openai env of
        None \<Rightarrow> True
      | Some create \<Rightarrow>
          (case create p of
             Inl e \<Rightarrow> True
           | Inr c \<Rightarrow> JSON_parse env (case c of None \<Rightarrow> lit ''null'' | Some t \<Rightarrow> t) = None))"

definition gemini_unavailable :: "env \<Rightarrow> prompt \<Rightarrow> bool" where
  "gemini_unavailable env p =
     (case genAI env of
        None \<Rightarrow> True
      | Some generateContent \<Rightarrow>
          (case generateContent p of
             Inl e \<Rightarrow> True
           | Inr t \<Rightarrow>
               (case jsonMatch t of None \<Rightarrow> True | Some m \<Rightarrow> JSON_parse env m = None)))"

text \<open>
  A store may break the base64 text it hands back into lines: the text without its
  white space (space, tab, line feed, carriage return).
\<close>

definition b64_whitespace :: "16 word \<Rightarrow> bool" where
  "b64_whitespace c = (c = 9 \<or> c = 10 \<or> c = 13 \<or> c = 32)"

definition without_whitespace :: "jsstring \<Rightarrow> jsstring" where
  "without_whitespace b = filter (\<lambda>c. \<not> b64_whitespace c) b"

text \<open>The writes among the actions of a computation, in order.\<close>

fun puts :: "action list \<Rightarrow> put_params list" where
  "puts [] = []"
| "puts (PutContent p # t) = p # puts t"
| "puts (a # t) = puts t"

text \<open>Shorthands for the two collection files and for the writes a handler issues.\<close>

abbreviation news_json :: jsstring where
  "news_json \<equiv> lit ''data/news.json''"

abbreviation gallery_json :: jsstring where
  "gallery_json \<equiv> lit ''data/gallery.json''"

abbreviation record_id :: "env \<Rightarrow> jsstring" where
  "record_id env \<equiv> slice0 8 (uuid_string (uuidv4 env AtRecord))"

abbreviation image_path :: "env \<Rightarrow> jsstring" where
  "image_path env \<equiv> lit ''images/'' @ image_filename env"

abbreviation image_put :: "env \<Rightarrow> byte list \<Rightarrow> put_params" where
  "image_put env bytes \<equiv>
     update_params (image_path env) (BufferData bytes) (AddImage (image_filename env)) None"

abbreviation collection_put ::
  "env \<Rightarrow> jsstring \<Rightarrow> jsvalue \<Rightarrow> commit_message \<Rightarrow> jsstring option \<Rightarrow> put_params" where
  "collection_put env p coll msg s \<equiv> update_params p (StringData (JSON_stringify env coll)) msg s"

text \<open>A computation succeeds when it returns instead of throwing.\<close>

definition succeeds :: "'a io \<Rightarrow> bool" where
  "succeeds m = (case snd m of Inl e \<Rightarrow> False | Inr x \<Rightarrow> True)"


text \<open>
  The pattern \<^verbatim>\<open>images/<digits>_<8-hex>.jpg\<close>: the prefix, one or more decimal
  digits, an underscore, eight lower-case hexadecimal digits and the extension.
\<close>

definition is_digit :: "16 word \<Rightarrow> bool" where
  "is_digit c = (48 \<le> unat c \<and> unat c \<le> 57)"

definition is_hex :: "16 word \<Rightarrow> bool" where
  "is_hex c = (is_digit c \<or> (97 \<le> unat c \<and> unat c \<le> 102))"

definition is_image_path :: "jsstring \<Rightarrow> bool" where
  "is_image_path p =
     (let digits = takeWhile is_digit (drop 7 p);
          rest = dropWhile is_digit (drop 7 p)
      in take 7 p = lit ''images/'' \<and> digits \<noteq> [] \<and> take 1 rest = lit ''_''
         \<and> length (take 8 (drop 1 rest)) = 8 \<and> list_all is_hex (take 8 (drop 1 rest))
         \<and> drop 9 rest = lit ''.jpg'')"

subsection \<open>Example environments\<close>

text \<open>
  An open deployment (empty allow-list) with no classifier configured and an empty
  store that accepts every write; \<open>restricted_env\<close> is the same with an allow-list.
\<close>

definition open_env :: env where
  "open_env =
     \<lparr>adminIds = [], openai = None, genAI = None,
      JSON_parse = (\<lambda>s. None),
      JSON_stringify = (\<lambda>v. []),
      Number_toString = (\<lambda>r. []),
      getContent = (\<lambda>p. Inl (HttpError 404 [])),
      createOrUpdateFileContents = (\<lambda>p. None),
      download = (\<lambda>f. Inr []),
      sharp = (\<lambda>b. Inr b),
      sendMessage = (\<lambda>r. None),
      Date_now = (\<lambda>s. 1234),
      uuidv4 = (\<lambda>s. 0),
      toLocaleDateString = []\<rparr>"

definition restricted_env :: env where
  "restricted_env = open_env\<lparr>adminIds := [Id 42, NaN]\<rparr>"

text \<open>
  A store whose collection files hold \<^verbatim>\<open>{{\<close>, which does not parse (\<open>broken_env\<close>),
  and one whose news collection holds fifty entries (\<open>full_env\<close>).
\<close>

definition broken_env :: env where
  "broken_env =
     open_env\<lparr>getContent :=
       (\<lambda>p. Inr \<lparr>data_content = Some (lit ''e3s=''), data_sha = lit ''abc''\<rparr>)\<rparr>"

definition full_env :: env where
  "full_env = broken_env\<lparr>JSON_parse := (\<lambda>s. Some (Arr (replicate 50 Null) []))\<rparr>"

text \<open>
  Both providers configured: the primary one fails, the secondary one answers with
  an object between two words.
\<close>

definition primary_failing_env :: env where
  "primary_failing_env =
     open_env\<lparr>openai := Some (\<lambda>p. Inl (HttpError 500 [])),
              genAI := Some (\<lambda>p. Inr (lit ''ok {} done'')),
              JSON_parse := (\<lambda>s. if s = lit ''{}'' then Some (Obj []) else None)\<rparr>"

text \<open>
  A store that hands back the serialized string \<^verbatim>\<open>[2325, 55357, 56832]\<close> (a Devanagari
  letter and a surrogate pair), its base64 text broken into two lines.
\<close>

definition wrapping_env :: env where
  "wrapping_env =
     open_env\<lparr>getContent :=
       (\<lambda>p. Inr \<lparr>data_content = Some (lit ''4KSV'' @ [10] @ lit ''8J+YgA==''),
                  data_sha = lit ''abc''\<rparr>)\<rparr>"

text \<open>
  The primary provider configured and answering with an object that classifies the
  content as an event.
\<close>

definition event_analysis :: jsvalue where
  "event_analysis =
     Obj [(lit ''category'', Str (lit ''event'')),
          (lit ''title_hindi'', Str (lit ''Mela'')),
          (lit ''title_english'', Str (lit ''Fair'')),
          (lit ''description_hindi'', Str (lit ''Mela'')),
          (lit ''description_english'', Str (lit ''Fair'')),
          (lit ''suggested_section'', Str (lit ''events'')),
          (lit ''priority'', Str (lit ''high'')),
          (lit ''tags'', Arr [Str (lit ''mela'')] [])]"

definition classified_env :: env where
  "classified_env =
     open_env\<lparr>openai := Some (\<lambda>p. Inr (Some (lit ''{}''))),
              JSON_parse := (\<lambda>s. Some event_analysis)\<rparr>"

text \<open>
  The primary provider answering with an object that has the category \<^verbatim>\<open>heritage\<close> and
  nothing else (\<open>heritage_env\<close>), and with the empty object (\<open>untitled_env\<close>). \<open>mandir\<close>
  is the caption of the photo, the Hindi word for a temple; \<open>notice_pdf\<close> is a document
  with its file name.
\<close>

definition heritage_only :: jsvalue where
  "heritage_only = Obj [(lit ''category'', Str (lit ''heritage''))]"

definition heritage_answer :: jsstring where
  "heritage_answer = lit ''{'' @ [34] @ lit ''category'' @ [34] @ lit '':'' @ [34]
     @ lit ''heritage'' @ [34] @ lit ''}''"

definition heritage_env :: env where
  "heritage_env =
     open_env\<lparr>openai := Some (\<lambda>p. Inr (Some heritage_answer)),
              JSON_parse := (\<lambda>s. if s = heritage_answer then Some heritage_only else None)\<rparr>"

definition mandir :: jsstring where
  "mandir = [2350, 2306, 2342, 2367, 2352]"

definition untitled_env :: env where
  "untitled_env =
     open_env\<lparr>openai := Some (\<lambda>p. Inr (Some (lit ''{}''))),
              JSON_parse := (\<lambda>s. if s = lit ''{}'' then Some (Obj []) else None)\<rparr>"

definition notice_pdf :: document where
  "notice_pdf = \<lparr>file_id = lit ''d1'', file_name = Some (lit ''notice.pdf'')\<rparr>"

section \<open>Properties of the encodings\<close>

subsection \<open>Base64 decoding inverts encoding\<close>

lemma unat_byte: "n < 256 \<Longrightarrow> unat (of_nat n :: 8 word) = n"
  by (simp add: unat_of_nat)
lemma unat_unit: "n < 65536 \<Longrightarrow> unat (of_nat n :: 16 word) = n"
  by (simp add: unat_of_nat)
lemma unat_byte_less: "unat (b :: 8 word) < 256"
  using unsigned_less [of b, where ?'a = nat] by simp
lemma unat_unit_less: "unat (b :: 16 word) < 65536"
  using unsigned_less [of b, where ?'a = nat] by simp

lemma b64_code_less: "b64_code n < 128"
  unfolding b64_code_def by auto

lemma unat_b64_char: "unat (b64_char n) = b64_code n"
  unfolding b64_char_def using b64_code_less [of n] by (intro unat_unit) simp

lemma low_byte_b64_char: "low_byte (b64_char n) = b64_code n"
  unfolding low_byte_def unat_b64_char using b64_code_less [of n] by simp

lemma unbase64_b64_char: "n < 64 \<Longrightarrow> unbase64 (b64_char n) = Some n"
  unfolding unbase64_def Let_def low_byte_b64_char by (auto simp: b64_code_def)

lemma b64_symbols_char: "n < 64 \<Longrightarrow> b64_symbols (b64_char n # cs) = n # b64_symbols cs"
  by (simp add: unbase64_b64_char)

lemma b64_symbols_pad: "b64_symbols (b64_pad # cs) = []"
  by (simp add: unbase64_def low_byte_def b64_pad_def)

lemma first_byte: fixes a b :: nat assumes "b < 256"
  shows "a div 4 * 4 + (a mod 4 * 16 + b div 16) div 16 = a"
proof -
  have "b div 16 < 16" using assms by simp
  then have "(a mod 4 * 16 + b div 16) div 16 = a mod 4" by simp
  then show ?thesis by simp
qed

lemma first_byte_pad: fixes a :: nat
  shows "a div 4 * 4 + (a mod 4 * 16) div 16 = a"
  using first_byte [of 0 a] by simp

lemma second_byte: fixes b c :: nat assumes "b < 256" "c < 256"
  shows "(x * 16 + b div 16) mod 16 * 16 + (b mod 16 * 4 + c div 64) div 4 = b"
proof -
  have "c div 64 < 4" using assms by simp
  then have 1: "(b mod 16 * 4 + c div 64) div 4 = b mod 16" by simp
  have "b div 16 < 16" using assms by simp
  then have 2: "(x * 16 + b div 16) mod 16 = b div 16" by simp
  show ?thesis unfolding 1 2 by simp
qed

lemma second_byte_pad: fixes b :: nat assumes "b < 256"
  shows "(x * 16 + b div 16) mod 16 * 16 + (b mod 16 * 4) div 4 = b"
  using second_byte [of b 0 x] assms by simp

lemma third_byte: fixes c :: nat assumes "c < 256"
  shows "(y * 4 + c div 64) mod 4 * 64 + c mod 64 = c"
proof -
  have "c div 64 < 4" using assms by simp
  then have 1: "(y * 4 + c div 64) mod 4 = c div 64" by simp
  show ?thesis unfolding 1 by simp
qed

lemma sextet1: fixes a :: nat assumes "a < 256" shows "a div 4 < 64" using assms by simp
lemma sextet2: fixes a b :: nat assumes "b < 256" shows "a mod 4 * 16 + b div 16 < 64"
proof -
  have "b div 16 < 16" using assms by simp
  moreover have "a mod 4 < 4" by simp
  ultimately show ?thesis by linarith
qed
lemma sextet2_pad: fixes a :: nat shows "a mod 4 * 16 < 64"
  using sextet2 [of 0 a] by simp
lemma sextet3: fixes b c :: nat assumes "c < 256" shows "b mod 16 * 4 + c div 64 < 64"
proof -
  have "c div 64 < 4" using assms by simp
  moreover have "b mod 16 < 16" by simp
  ultimately show ?thesis by linarith
qed
lemma sextet3_pad: fixes b :: nat shows "b mod 16 * 4 < 64"
  using sextet3 [of 0 b] by simp

lemma word_of_unat: "of_nat (unat w) = (w :: 'a::len word)"
  by simp

lemma base64_roundtrip: "base64_decode (base64_encode bs) = bs"
  unfolding base64_decode_def
proof (induction bs rule: base64_encode.induct)
  case 1
  show ?case by simp
next
  case (2 a)
  have a: "unat a < 256" by (rule unat_byte_less)
  have "b64_symbols (base64_encode [a]) = [unat a div 4, unat a mod 4 * 16]"
    by (simp only: base64_encode.simps b64_symbols_char b64_symbols_pad sextet1 [OF a] sextet2_pad)
  then show ?case by (simp only: b64_groups.simps first_byte_pad word_of_unat)
next
  case (3 a b)
  have a: "unat a < 256" and b: "unat b < 256" by (rule unat_byte_less)+
  have "b64_symbols (base64_encode [a, b]) =
      [unat a div 4, unat a mod 4 * 16 + unat b div 16, unat b mod 16 * 4]"
    by (simp only: base64_encode.simps b64_symbols_char b64_symbols_pad sextet1 [OF a] sextet2 [OF b] sextet3_pad)
  then show ?case
    by (simp only: b64_groups.simps first_byte [OF b] second_byte_pad [OF b] word_of_unat)
next
  case (4 a b c rest)
  have a: "unat a < 256" and b: "unat b < 256" and c: "unat c < 256" by (rule unat_byte_less)+
  have c4: "unat c mod 64 < 64" by simp
  have "b64_symbols (base64_encode (a # b # c # rest)) =
      unat a div 4 # (unat a mod 4 * 16 + unat b div 16) # (unat b mod 16 * 4 + unat c div 64)
        # unat c mod 64 # b64_symbols (base64_encode rest)"
    by (simp only: base64_encode.simps append_Cons append_Nil b64_symbols_char sextet1 [OF a] sextet2 [OF b] sextet3 [OF c] c4)
  then show ?case using 4
    by (simp only: b64_groups.simps first_byte [OF b] second_byte [OF b c] third_byte [OF c] word_of_unat append_Cons append_Nil)
qed

lemma b64_symbols_whitespace: "b64_whitespace c \<Longrightarrow> b64_symbols (c # cs) = b64_symbols cs"
  by (auto simp: b64_whitespace_def unbase64_def low_byte_def)

lemma b64_symbols_without_whitespace: "b64_symbols (without_whitespace r) = b64_symbols r"
proof (induction r)
  case Nil
  show ?case by (simp add: without_whitespace_def)
next
  case (Cons c r)
  show ?case
  proof (cases "b64_whitespace c")
    case True
    then have "without_whitespace (c # r) = without_whitespace r"
      by (simp add: without_whitespace_def)
    then show ?thesis using Cons b64_symbols_whitespace [OF True, of r] by (simp only:)
  next
    case False
    then have "without_whitespace (c # r) = c # without_whitespace r"
      by (simp add: without_whitespace_def)
    then show ?thesis using Cons by (simp split: option.splits)
  qed
qed

lemma base64_decode_without_whitespace:
  "base64_decode (without_whitespace r) = base64_decode r"
  by (simp add: base64_decode_def b64_symbols_without_whitespace)

subsection \<open>UTF-8 decoding inverts encoding on well-formed strings\<close>

lemma div_4096: "(n::nat) div 4096 = n div 64 div 64"
  using div_mult2_eq [of n 64 64] by simp

lemma div_262144: "(n::nat) div 262144 = n div 4096 div 64"
  using div_mult2_eq [of n 4096 64] by simp

lemma digits_64_3: "(n::nat) div 4096 * 4096 + n div 64 mod 64 * 64 + n mod 64 = n"
proof -
  have "n div 64 = n div 4096 * 64 + n div 64 mod 64"
    unfolding div_4096 by simp
  moreover have "n = n div 64 * 64 + n mod 64" by simp
  ultimately show ?thesis by linarith
qed

lemma digits_64_4: "(n::nat) div 262144 * 262144 + n div 4096 mod 64 * 4096 + n div 64 mod 64 * 64 + n mod 64 = n"
proof -
  have "n div 4096 = n div 262144 * 64 + n div 4096 mod 64"
    unfolding div_262144 by simp
  then show ?thesis using digits_64_3 [of n] by linarith
qed

lemma lead2_upper: "(n::nat) < 2048 \<Longrightarrow> n div 64 < 32" by simp
lemma lead2_lower: "128 \<le> (n::nat) \<Longrightarrow> 2 \<le> n div 64" by simp
lemma lead3_upper: "(n::nat) < 65536 \<Longrightarrow> n div 4096 < 16" by simp
lemma second_after_e0: "(n::nat) < 4096 \<Longrightarrow> 2048 \<le> n \<Longrightarrow> 32 \<le> n div 64 mod 64"
proof -
  assume a: "n < 4096" "2048 \<le> n"
  then have "n div 64 < 64" by simp
  then have "n div 64 mod 64 = n div 64" by simp
  moreover have "32 \<le> n div 64" using a by simp
  ultimately show ?thesis by simp
qed
lemma second_after_ed: "(n::nat) div 4096 = 13 \<Longrightarrow> n < 55296 \<Longrightarrow> n div 64 mod 64 < 32"
proof -
  assume a: "n div 4096 = 13" "n < 55296"
  have "n div 64 = n div 4096 * 64 + n div 64 mod 64"
    unfolding div_4096 by simp
  then have "n div 64 = 13 * 64 + n div 64 mod 64"
    using a(1) by simp
  moreover have "n div 64 < 864" using a(2) by simp
  ultimately show ?thesis by linarith
qed
lemma lead4_upper: "(n::nat) < 1114112 \<Longrightarrow> n div 262144 \<le> 4" 
proof -
  assume "n < 1114112"
  then have "n div 262144 < 5" by simp
  then show ?thesis by simp
qed
lemma second_after_f0: "(n::nat) < 262144 \<Longrightarrow> 65536 \<le> n \<Longrightarrow> 16 \<le> n div 4096 mod 64" 
proof -
  assume a: "n < 262144" "65536 \<le> n"
  then have "n div 4096 < 64" by simp
  then have "n div 4096 mod 64 = n div 4096" by simp
  moreover have "16 \<le> n div 4096" using a by simp
  ultimately show ?thesis by simp
qed
lemma second_after_f4: "(n::nat) div 262144 = 4 \<Longrightarrow> n < 1114112 \<Longrightarrow> n div 4096 mod 64 < 16"
proof -
  assume a: "n div 262144 = 4" "n < 1114112"
  have "n div 4096 = n div 262144 * 64 + n div 4096 mod 64"
    unfolding div_262144 by simp
  then have "n div 4096 = 4 * 64 + n div 4096 mod 64"
    using a(1) by simp
  moreover have "n div 4096 < 272" using a(2) by simp
  ultimately show ?thesis by linarith
qed

lemma decode_1: "unat b0 < 128 \<Longrightarrow> utf8_decode (b0 # r) = of_nat (unat b0) # utf8_decode r"
  by (simp add: Let_def)

lemma decode_2:
  "194 \<le> unat b0 \<Longrightarrow> unat b0 \<le> 223 \<Longrightarrow> in_range 128 191 b1 \<Longrightarrow>
   utf8_decode (b0 # b1 # r) = units_of_cp ((unat b0 - 192) * 64 + (unat b1 - 128)) @ utf8_decode r"
  by (simp add: Let_def)

lemma decode_3:
  "224 \<le> unat b0 \<Longrightarrow> unat b0 \<le> 239 \<Longrightarrow> 
   in_range (second_lo (unat b0)) (second_hi (unat b0)) b1 \<Longrightarrow> in_range 128 191 b2 \<Longrightarrow>
   utf8_decode (b0 # b1 # b2 # r) =
     units_of_cp ((unat b0 - 224) * 4096 + (unat b1 - 128) * 64 + (unat b2 - 128)) @ utf8_decode r"
  by (simp add: Let_def)

lemma decode_4:
  "240 \<le> unat b0 \<Longrightarrow> unat b0 \<le> 244 \<Longrightarrow> 
   in_range (second_lo (unat b0)) (second_hi (unat b0)) b1 \<Longrightarrow> in_range 128 191 b2 \<Longrightarrow>
   in_range 128 191 b3 \<Longrightarrow>
   utf8_decode (b0 # b1 # b2 # b3 # r) =
     units_of_cp ((unat b0 - 240) * 262144 + (unat b1 - 128) * 4096 + (unat b2 - 128) * 64
        + (unat b3 - 128)) @ utf8_decode r"
  by (simp add: Let_def)

lemma cont_byte: "m < 64 \<Longrightarrow> in_range 128 191 (of_nat (128 + m))"
  using unat_byte [of "128 + m"] by (simp add: in_range_def)

lemma cont_val: "m < 64 \<Longrightarrow> unat (of_nat (128 + m) :: byte) - 128 = m"
  using unat_byte [of "128 + m"] by simp

lemma decode_cp_1:
  assumes "n < 128"
  shows "utf8_decode (utf8_of_cp n @ r) = units_of_cp n @ utf8_decode r"
proof -
  have u: "unat (of_nat n :: byte) = n" using assms by (intro unat_byte) simp
  have "utf8_decode (of_nat n # r) = of_nat n # utf8_decode r"
    using decode_1 [of "of_nat n" r] assms unfolding u by simp
  then show ?thesis using assms by (simp add: utf8_of_cp_def units_of_cp_def)
qed

lemma decode_cp_2:
  assumes "128 \<le> n" "n < 2048"
  shows "utf8_decode (utf8_of_cp n @ r) = units_of_cp n @ utf8_decode r"
proof -
  have d: "n div 64 < 32" "2 \<le> n div 64" using assms by simp_all
  have u: "unat (of_nat (192 + n div 64) :: byte) = 192 + n div 64"
    using d by (intro unat_byte) simp
  have m: "n mod 64 < 64" by simp
  have "utf8_decode (of_nat (192 + n div 64) # of_nat (128 + n mod 64) # r)
      = units_of_cp ((192 + n div 64 - 192) * 64 + n mod 64) @ utf8_decode r"
    using decode_2 [of "of_nat (192 + n div 64)" "of_nat (128 + n mod 64)" r] d
    unfolding u cont_val [OF m] by (simp only: cont_byte [OF m])
  moreover have "(192 + n div 64 - 192) * 64 + n mod 64 = n" by simp
  ultimately show ?thesis using assms by (simp add: utf8_of_cp_def)
qed

lemma second_byte3:
  assumes "2048 \<le> n" "n < 65536" "\<not> (55296 \<le> n \<and> n < 57344)"
  shows "in_range (second_lo (224 + n div 4096)) (second_hi (224 + n div 4096))
           (of_nat (128 + n div 64 mod 64))"
proof -
  have m: "n div 64 mod 64 < 64" by simp
  have u: "unat (of_nat (128 + n div 64 mod 64) :: byte) = 128 + n div 64 mod 64"
    using m by (intro unat_byte) simp
  have lo: "n div 4096 = 0 \<Longrightarrow> 32 \<le> n div 64 mod 64"
  proof -
    assume "n div 4096 = 0"
    then have "n < 4096" by simp
    then show ?thesis using assms(1) by (rule second_after_e0)
  qed
  have hi: "n div 4096 = 13 \<Longrightarrow> n div 64 mod 64 < 32"
  proof -
    assume a: "n div 4096 = 13"
    then have "n < 57344" by simp
    then have "n < 55296" using assms(3) by simp
    with a show ?thesis by (rule second_after_ed)
  qed
  have d: "n div 4096 < 16" using assms(2) by simp
  show ?thesis unfolding in_range_def u second_lo_def second_hi_def
    using lo hi m d by auto
qed

lemma decode_cp_3:
  assumes "2048 \<le> n" "n < 65536" "\<not> (55296 \<le> n \<and> n < 57344)"
  shows "utf8_decode (utf8_of_cp n @ r) = units_of_cp n @ utf8_decode r"
proof -
  have d: "n div 4096 < 16" using assms by simp
  have u: "unat (of_nat (224 + n div 4096) :: byte) = 224 + n div 4096"
    using d by (intro unat_byte) simp
  have m1: "n div 64 mod 64 < 64" and m2: "n mod 64 < 64" by simp_all
  have b: "224 \<le> 224 + n div 4096" "224 + n div 4096 \<le> 239" using d by simp_all
  have "utf8_decode (of_nat (224 + n div 4096) # of_nat (128 + n div 64 mod 64)
           # of_nat (128 + n mod 64) # r)
      = units_of_cp ((224 + n div 4096 - 224) * 4096 + n div 64 mod 64 * 64 + n mod 64)
          @ utf8_decode r"
    using decode_3 [of "of_nat (224 + n div 4096)" "of_nat (128 + n div 64 mod 64)"
        "of_nat (128 + n mod 64)" r]
    unfolding u cont_val [OF m1] cont_val [OF m2]
    by (simp only: b cont_byte [OF m2] second_byte3 [OF assms])
  moreover have "(224 + n div 4096 - 224) * 4096 + n div 64 mod 64 * 64 + n mod 64 = n"
    using digits_64_3 [of n] by simp
  ultimately show ?thesis using assms by (simp add: utf8_of_cp_def)
qed

lemma second_byte4:
  assumes "65536 \<le> n" "n < 1114112"
  shows "in_range (second_lo (240 + n div 262144)) (second_hi (240 + n div 262144))
           (of_nat (128 + n div 4096 mod 64))"
proof -
  have m: "n div 4096 mod 64 < 64" by simp
  have u: "unat (of_nat (128 + n div 4096 mod 64) :: byte) = 128 + n div 4096 mod 64"
    using m by (intro unat_byte) simp
  have lo: "n div 262144 = 0 \<Longrightarrow> 16 \<le> n div 4096 mod 64"
  proof -
    assume "n div 262144 = 0"
    then have "n < 262144" by simp
    then show ?thesis using assms(1) by (rule second_after_f0)
  qed
  have hi: "n div 262144 = 4 \<Longrightarrow> n div 4096 mod 64 < 16"
    using assms(2) by (rule second_after_f4 [rotated])
  have d: "n div 262144 \<le> 4" using assms(2) by (rule lead4_upper)
  show ?thesis unfolding in_range_def u second_lo_def second_hi_def
    using lo hi m d by auto
qed

lemma decode_cp_4:
  assumes "65536 \<le> n" "n < 1114112"
  shows "utf8_decode (utf8_of_cp n @ r) = units_of_cp n @ utf8_decode r"
proof -
  have d: "n div 262144 \<le> 4" using assms(2) by (rule lead4_upper)
  have u: "unat (of_nat (240 + n div 262144) :: byte) = 240 + n div 262144"
    using d by (intro unat_byte) simp
  have m1: "n div 4096 mod 64 < 64" and m2: "n div 64 mod 64 < 64" and m3: "n mod 64 < 64"
    by simp_all
  have b: "240 \<le> 240 + n div 262144" "240 + n div 262144 \<le> 244" using d by simp_all
  have "utf8_decode (of_nat (240 + n div 262144) # of_nat (128 + n div 4096 mod 64)
           # of_nat (128 + n div 64 mod 64) # of_nat (128 + n mod 64) # r)
      = units_of_cp ((240 + n div 262144 - 240) * 262144 + n div 4096 mod 64 * 4096
           + n div 64 mod 64 * 64 + n mod 64) @ utf8_decode r"
    using decode_4 [of "of_nat (240 + n div 262144)" "of_nat (128 + n div 4096 mod 64)"
        "of_nat (128 + n div 64 mod 64)" "of_nat (128 + n mod 64)" r]
    unfolding u cont_val [OF m1] cont_val [OF m2] cont_val [OF m3]
    by (simp only: b cont_byte [OF m2] cont_byte [OF m3] second_byte4 [OF assms])
  moreover have "(240 + n div 262144 - 240) * 262144 + n div 4096 mod 64 * 4096
           + n div 64 mod 64 * 64 + n mod 64 = n"
    using digits_64_4 [of n] by simp
  ultimately show ?thesis using assms by (simp add: utf8_of_cp_def)
qed

lemma decode_cp_bmp:
  assumes "n < 65536" "\<not> (55296 \<le> n \<and> n < 57344)"
  shows "utf8_decode (utf8_of_cp n @ r) = of_nat n # utf8_decode r"
proof -
  have "utf8_decode (utf8_of_cp n @ r) = units_of_cp n @ utf8_decode r"
  proof (cases "n < 128")
    case True
    then show ?thesis by (rule decode_cp_1)
  next
    case False
    show ?thesis
    proof (cases "n < 2048")
      case True
      with False show ?thesis by (intro decode_cp_2) simp_all
    next
      case False
      then show ?thesis using assms by (intro decode_cp_3) simp_all
    qed
  qed
  then show ?thesis using assms(1) by (simp add: units_of_cp_def)
qed

lemma pair_value:
  fixes h l :: nat
  assumes "55296 \<le> h" "h < 56320" "56320 \<le> l" "l < 57344"
  shows "65536 \<le> 65536 + (h - 55296) * 1024 + (l - 56320)"
    and "65536 + (h - 55296) * 1024 + (l - 56320) < 1114112"
    and "55296 + (65536 + (h - 55296) * 1024 + (l - 56320) - 65536) div 1024 = h"
    and "56320 + (65536 + (h - 55296) * 1024 + (l - 56320) - 65536) mod 1024 = l"
proof -
  have l: "l - 56320 < 1024" using assms by simp
  have h: "h - 55296 < 1024" using assms by simp
  show "65536 \<le> 65536 + (h - 55296) * 1024 + (l - 56320)" by simp
  show "65536 + (h - 55296) * 1024 + (l - 56320) < 1114112" using l h by simp
  have "((h - 55296) * 1024 + (l - 56320)) div 1024 = h - 55296" using l by simp
  then show "55296 + (65536 + (h - 55296) * 1024 + (l - 56320) - 65536) div 1024 = h"
    using assms by simp
  have "((h - 55296) * 1024 + (l - 56320)) mod 1024 = l - 56320" using l by simp
  then show "56320 + (65536 + (h - 55296) * 1024 + (l - 56320) - 65536) mod 1024 = l"
    using assms by simp
qed

lemma decode_cp_pair:
  assumes "is_high (unat u)" "is_low (unat v)"
  shows "utf8_decode (utf8_of_cp (65536 + (unat u - 55296) * 1024 + (unat v - 56320)) @ r)
           = u # v # utf8_decode r"
proof -
  let ?cp = "65536 + (unat u - 55296) * 1024 + (unat v - 56320)"
  have a: "55296 \<le> unat u" "unat u < 56320" "56320 \<le> unat v" "unat v < 57344"
    using assms by (simp_all add: is_high_def is_low_def)
  note pv = pair_value [OF a]
  have "utf8_decode (utf8_of_cp ?cp @ r) = units_of_cp ?cp @ utf8_decode r"
    using pv(1,2) by (rule decode_cp_4)
  moreover have "units_of_cp ?cp = [u, v]"
    unfolding units_of_cp_def using pv(1) by (simp only: pv(3,4) word_of_unat) simp
  ultimately show ?thesis by simp
qed

lemma utf8_roundtrip: "isWellFormed s \<Longrightarrow> utf8_decode (utf8_encode s) = s"
proof (induction s rule: isWellFormed.induct)
  case 1
  show ?case by simp
next
  case (2 u us)
  show ?case
  proof (cases "is_high (unat u)")
    case True
    with "2.prems" obtain v vs where us: "us = v # vs" and v: "is_low (unat v)"
      and wf: "isWellFormed vs"
      by (cases us) simp_all
    have "utf8_decode (utf8_encode vs) = vs" using "2.IH"(1) [OF True us] wf by simp
    then show ?thesis using True us v by (simp add: decode_cp_pair del: utf8_decode.simps)
  next
    case False
    with "2.prems" have nl: "\<not> is_low (unat u)" and wf: "isWellFormed us" by simp_all
    have ih: "utf8_decode (utf8_encode us) = us" using "2.IH"(2) [OF False] wf by simp
    have n: "unat u < 65536" by (rule unat_unit_less)
    have ns: "\<not> (55296 \<le> unat u \<and> unat u < 57344)"
      using False nl by (auto simp: is_high_def is_low_def)
    show ?thesis using False nl ih decode_cp_bmp [OF n ns, of "utf8_encode us"]
      by (simp del: utf8_decode.simps)
  qed
qed

section \<open>Properties of the pipeline\<close>

subsection \<open>Sequencing\<close>

lemma io_bind_alt:
  "io_bind m f =
     (case snd m of Inl e \<Rightarrow> (fst m, Inl e) | Inr x \<Rightarrow> (fst m @ fst (f x), snd (f x)))"
  by (cases m) (simp add: io_bind_def split: sum.splits prod.splits)

lemma snd_io_bind_Inr_iff:
  "snd (io_bind m f) = Inr y \<longleftrightarrow> (\<exists>x. snd m = Inr x \<and> snd (f x) = Inr y)"
  by (cases m) (auto simp: io_bind_def split: sum.splits prod.splits)

lemma succeeds_iff: "succeeds m \<longleftrightarrow> (\<exists>x. snd m = Inr x)"
  by (cases "snd m") (simp_all add: succeeds_def)

lemma succeeds_io_bind: "succeeds (io_bind m f) \<longleftrightarrow> (\<exists>x. snd m = Inr x \<and> succeeds (f x))"
  by (cases m) (auto simp: io_bind_def succeeds_def split: sum.splits prod.splits)

lemma succeeds_stepI: "snd m = Inr x \<Longrightarrow> succeeds (f x) \<Longrightarrow> succeeds (io_bind m f)"
  by (auto simp: succeeds_io_bind)

lemma succeeds_bindI:
  "succeeds m \<Longrightarrow> (\<And>x. snd m = Inr x \<Longrightarrow> succeeds (f x)) \<Longrightarrow> succeeds (io_bind m f)"
  by (auto simp: succeeds_iff snd_io_bind_Inr_iff)

lemma succeeds_ret: "succeeds (ret x)"
  by (simp add: succeeds_def ret_def)

lemma lift_simps: "fst (lift r) = []" "snd (lift r) = r"
  by (simp_all add: lift_def)

lemma ret_simps: "fst (ret x) = []" "snd (ret x) = Inr x"
  by (simp_all add: ret_def)

lemma fst_io_bind_silent:
  "fst m = [] \<Longrightarrow> (\<And>x. fst (f x) = []) \<Longrightarrow> fst (io_bind m f) = []"
  by (simp add: io_bind_alt split: sum.splits)

lemma handle_succeeds: "succeeds m \<Longrightarrow> handle m failure = fst m"
  by (cases m) (auto simp: handle_def succeeds_def split: sum.splits)

lemma puts_append: "puts (t @ u) = puts t @ puts u"
  by (induction t rule: puts.induct) simp_all

lemma fst_reply: "fst (reply env r) = [Reply r]"
  by (simp add: reply_def call_def)

lemma puts_reply: "puts (fst (reply env r)) = []"
  by (simp add: reply_def call_def)

lemma puts_fetch: "puts (fst (fetch env f)) = []"
  by (simp add: fetch_def call_def)

lemma snd_fetch: "snd (fetch env f) = download env f"
  by (simp add: fetch_def call_def)

subsection \<open>The store client\<close>

lemma getFile_failure:
  "getContent env p = Inl e \<Longrightarrow>
   getFileFromGitHub env p =
     ([GetContent p], if status e = Some 404 then Inr (None, None) else Inl e)"
  by (simp add: getFileFromGitHub_def try_catch_def io_bind_def call_def ret_def throw_def)

lemma getFile_success:
  "getContent env p = Inr r \<Longrightarrow> data_content r = Some c \<Longrightarrow>
   getFileFromGitHub env p =
     ([GetContent p], Inr (Some (utf8_decode (base64_decode c)), Some (data_sha r)))"
  by (simp add: getFileFromGitHub_def try_catch_def io_bind_def call_def ret_def throw_def)

lemma getFile_no_content:
  "getContent env p = Inr r \<Longrightarrow> data_content r = None \<Longrightarrow>
   getFileFromGitHub env p = ([GetContent p], Inl TypeError)"
  by (simp add: getFileFromGitHub_def try_catch_def io_bind_def call_def ret_def throw_def)

lemma fst_getFile: "fst (getFileFromGitHub env p) = [GetContent p]"
  by (cases "getContent env p"; cases "data_content (projr (getContent env p))")
     (simp_all add: getFile_failure getFile_success getFile_no_content)

lemma fst_updateFile:
  "fst (updateFileOnGitHub env p c msg s) = [PutContent (update_params p c msg s)]"
  by (simp add: updateFileOnGitHub_def call_def Let_def)

lemma snd_updateFile:
  "snd (updateFileOnGitHub env p c msg s) =
     (case createOrUpdateFileContents env (update_params p c msg s) of
        None \<Rightarrow> Inr () | Some e \<Rightarrow> Inl e)"
  by (simp add: updateFileOnGitHub_def call_def Let_def)

lemma accepting_updateFile:
  "createOrUpdateFileContents env = (\<lambda>p. None) \<Longrightarrow>
   updateFileOnGitHub env p c msg s = ([PutContent (update_params p c msg s)], Inr ())"
  by (simp add: updateFileOnGitHub_def call_def)

lemma uploadImage_alt:
  "uploadImageToGitHub env b f =
     (case sharp env b of
        Inl e \<Rightarrow> ([], Inl e)
      | Inr opt \<Rightarrow>
          ([PutContent (update_params (lit ''images/'' @ f) (BufferData opt) (AddImage f) None)],
           case createOrUpdateFileContents env
                  (update_params (lit ''images/'' @ f) (BufferData opt) (AddImage f) None) of
             None \<Rightarrow> Inr (lit ''images/'' @ f)
           | Some e \<Rightarrow> Inl e))"
  unfolding uploadImageToGitHub_def Let_def
  by (auto simp: io_bind_alt lift_simps ret_simps fst_updateFile snd_updateFile
      split: sum.splits option.splits)

lemma path_update_params: "path (update_params p c msg s) = p"
  by (simp add: update_params_def)

lemma image_path_not_collection:
  "lit ''images/'' @ f \<noteq> lit ''data/news.json''"
  "lit ''images/'' @ f \<noteq> lit ''data/gallery.json''"
  "lit ''data/gallery.json'' \<noteq> lit ''data/news.json''"
  "lit ''data/news.json'' \<noteq> lit ''data/gallery.json''"
  by (simp_all add: lit_def)


subsection \<open>The classifier\<close>

lemma analyzeContent_primary_fails:
  "openai env = Some create \<Longrightarrow> create (Prompt txt hasImage) = Inl e \<Longrightarrow>
   analyzeContent env txt hasImage =
     ([CallOpenAI (Prompt txt hasImage)], Inr (default_analysis txt hasImage))"
  by (simp add: analyzeContent_def analyze_try_def try_catch_def io_bind_def call_def ret_def)

lemma analyzeContent_total: "\<exists>v. snd (analyzeContent env txt hasImage) = Inr v"
  by (auto simp: analyzeContent_def try_catch_def ret_def split: prod.splits sum.splits)

lemma fst_analyzeContent_no_puts: "puts (fst (analyzeContent env txt hasImage)) = []"
  by (auto simp: analyzeContent_def analyze_try_def try_catch_def io_bind_def call_def ret_def
      throw_def lift_def split: option.splits sum.splits prod.splits)

lemma fst_analyzeContent_opt_no_puts: "puts (fst (analyzeContent_opt env t hasImage)) = []"
  by (auto simp: analyzeContent_opt_def fst_analyzeContent_no_puts analyze_try_def try_catch_def
      io_bind_def call_def throw_def lift_def split: option.splits sum.splits prod.splits)

lemma default_analysis_getp:
  "getp (default_analysis txt hasImage) (lit ''category'')
     = Inr (Str (if hasImage then lit ''gallery'' else lit ''news''))"
  "getp (default_analysis txt hasImage) (lit ''title_hindi'') = Inr (Str (slice0 50 txt))"
  "getp (default_analysis txt hasImage) (lit ''title_english'') = Inr (Str (slice0 50 txt))"
  "getp (default_analysis txt hasImage) (lit ''description_hindi'') = Inr (Str txt)"
  "getp (default_analysis txt hasImage) (lit ''description_english'') = Inr (Str txt)"
  "getp (default_analysis txt hasImage) (lit ''priority'') = Inr (Str (lit ''medium''))"
  "getp (default_analysis txt hasImage) (lit ''tags'') = Inr (Arr [] [])"
  by (simp_all add: default_analysis_def lit_def)

subsection \<open>Values\<close>

lemma getp_total: "getp a k = Inr v \<Longrightarrow> \<exists>w. getp a k' = Inr w"
  by (cases a) simp_all

lemma getp_setp:
  "setp a k v = Inr a' \<Longrightarrow> getp a' k' = Inr w \<Longrightarrow> w \<noteq> Undefined \<Longrightarrow> getp a' k = Inr v"
  by (cases a) (auto simp: update_conv')

lemma unshift_Inr:
  "unshift v x = Inr d \<Longrightarrow> \<exists>xs ps. v = Arr xs ps \<and> d = Arr (x # xs) ps"
  by (cases v) simp_all



lemma news_item_Inr:
  "getp a k = Inr v \<Longrightarrow> \<exists>item. news_item i d n a p = Inr item"
  by (cases a) (simp_all add: news_item_def)

lemma news_item_image:
  "news_item i d n a (Some p) = Inr item \<Longrightarrow> getp item (lit ''image'') = Inr (Str p)"
  by (auto simp: news_item_def of_path_def lit_def split: sum.splits)

lemma news_item_no_image:
  "news_item i d n a None = Inr item \<Longrightarrow> getp item (lit ''image'') = Inr Null"
  by (auto simp: news_item_def of_path_def lit_def split: sum.splits)

lemma news_item_category:
  "news_item i d n a p = Inr item \<Longrightarrow> getp a (lit ''category'') = Inr c \<Longrightarrow>
   getp item (lit ''category'') = Inr c"
  by (auto simp: news_item_def lit_def split: sum.splits)


lemma gallery_item_path:
  "gallery_item i p a n d = Inr item \<Longrightarrow> getp item (lit ''path'') = Inr (Str p)"
  by (auto simp: gallery_item_def lit_def split: sum.splits)

lemma fst_interpolate: "fst (interpolate env v k) = []"
  by (simp add: interpolate_def lift_def)

lemma fst_title_slice: "fst (title_slice env v n) = []"
  by (simp add: title_slice_def lift_def)


lemma title_slice_defined:
  "snd (title_slice env a n) = Inr t \<Longrightarrow>
   \<exists>w. getp a (lit ''title_english'') = Inr w \<and> w \<noteq> Undefined"
  by (auto simp: title_slice_def lift_simps split: sum.splits)

lemma fst_render_news: "fst (render_news env i d a p) = []"
  unfolding render_news_def
  by (intro fst_io_bind_silent fst_interpolate) (simp_all add: ret_simps fst_io_bind_silent fst_interpolate)


lemma default_render:
  "succeeds (render_news env i d (default_analysis txt hasImage) None)"
  unfolding render_news_def
  apply (rule succeeds_stepI, simp add: interpolate_def lift_simps default_analysis_getp)
  apply (rule succeeds_stepI, simp add: interpolate_def lift_simps default_analysis_getp)
  apply (rule succeeds_stepI, simp add: truthy_def ret_simps)
  apply (rule succeeds_stepI, simp add: interpolate_def lift_simps default_analysis_getp)
  apply (rule succeeds_stepI, simp add: interpolate_def lift_simps default_analysis_getp)
  apply (rule succeeds_ret)
  done


lemma default_news_item:
  "\<exists>item. news_item i d n (default_analysis txt hasImage) p = Inr item"
  using news_item_Inr [OF default_analysis_getp(1)] .

subsection \<open>What a successful update of a collection has done\<close>

lemma addNewsToWebsite_succeeds:
  assumes "snd (addNewsToWebsite env analysis imagePath) = Inr r"
  shows "\<exists>html c s item xs ps title.
     snd (render_news env (slice0 8 (uuid_string (uuidv4 env AtRecord)))
            (toLocaleDateString env) analysis imagePath) = Inr html
   \<and> snd (getFileFromGitHub env (lit ''data/news.json'')) = Inr (c, s)
   \<and> news_item (slice0 8 (uuid_string (uuidv4 env AtRecord))) (toLocaleDateString env)
        (Date_now env AtRecord) analysis imagePath = Inr item
   \<and> load_collection env c = Arr xs ps
   \<and> snd (title_slice env analysis 50) = Inr title
   \<and> fst (addNewsToWebsite env analysis imagePath) =
       [GetContent (lit ''data/news.json''),
        PutContent (update_params (lit ''data/news.json'')
          (StringData (JSON_stringify env (Arr (slice0 50 (item # xs)) []))) (AddNews title) s)]
   \<and> r = (slice0 8 (uuid_string (uuidv4 env AtRecord)), html)"
  using assms unfolding addNewsToWebsite_def Let_def
  by (auto simp: io_bind_alt lift_simps ret_simps fst_getFile fst_title_slice fst_updateFile
      fst_render_news split: sum.splits prod.splits dest!: unshift_Inr)

lemma addPhotoToGallery_succeeds:
  assumes "snd (addPhotoToGallery env imagePath analysis) = Inr r"
  shows "\<exists>c s item xs ps title.
     snd (getFileFromGitHub env (lit ''data/gallery.json'')) = Inr (c, s)
   \<and> gallery_item (slice0 8 (uuid_string (uuidv4 env AtRecord))) imagePath analysis
        (Date_now env AtRecord) (toLocaleDateString env) = Inr item
   \<and> load_collection env c = Arr xs ps
   \<and> snd (title_slice env analysis 30) = Inr title
   \<and> fst (addPhotoToGallery env imagePath analysis) =
       [GetContent (lit ''data/gallery.json''),
        PutContent (update_params (lit ''data/gallery.json'')
          (StringData (JSON_stringify env (Arr (item # xs) ps))) (AddGalleryPhoto title) s)]
   \<and> r = slice0 8 (uuid_string (uuidv4 env AtRecord))"
  using assms unfolding addPhotoToGallery_def Let_def
  by (auto simp: io_bind_alt lift_simps ret_simps fst_getFile fst_title_slice fst_updateFile
      split: sum.splits prod.splits dest!: unshift_Inr)

subsection \<open>The name of an uploaded image\<close>

lemma is_digit_char: "d < 10 \<Longrightarrow> is_digit (of_nat (48 + d))"
  using unat_unit [of "48 + d"] by (simp add: is_digit_def)

lemma decimal_digits: "decimal n \<noteq> [] \<and> list_all is_digit (decimal n)"
proof (induction n rule: decimal.induct)
  case (1 n)
  show ?case
  proof (cases "n < 10")
    case True
    then show ?thesis using is_digit_char [of n] by (subst decimal.simps) simp
  next
    case False
    have "n mod 10 < 10" by simp
    then have "is_digit (of_nat (48 + n mod 10))" by (rule is_digit_char)
    with False "1.IH" show ?thesis by (subst decimal.simps) simp
  qed
qed

lemma is_hex_digit: "d < 16 \<Longrightarrow> is_hex (hex_digit d)"
proof -
  assume d: "d < 16"
  have "unat (hex_digit d) = (if d < 10 then 48 + d else 87 + d)"
    unfolding hex_digit_def using d by (intro unat_unit) simp
  then show ?thesis using d by (simp add: is_hex_def is_digit_def)
qed

lemma hex_digits: "length (hex k n) = k \<and> list_all is_hex (hex k n)"
  by (induction k n rule: hex.induct) (simp_all add: is_hex_digit)

lemma uuid_prefix: "slice0 8 (uuid_string w) = hex 8 (unat w div 2 ^ 96)"
  using hex_digits [of 8 "unat w div 2 ^ 96"]
  by (simp add: uuid_string_def slice0_def Let_def)

lemma underscore_not_digit: "\<not> is_digit 95"
  by (simp add: is_digit_def)

lemma image_path_matches:
  assumes "ds \<noteq> []" "list_all is_digit ds" "length hs = 8" "list_all is_hex hs"
  shows "is_image_path (lit ''images/'' @ ds @ lit ''_'' @ hs @ lit ''.jpg'')"
proof -
  have l: "lit ''images/'' @ ds @ lit ''_'' @ hs @ lit ''.jpg''
      = lit ''images/'' @ (ds @ 95 # hs @ lit ''.jpg'')" by (simp add: lit_def)
  have len: "length (lit ''images/'') = 7" by (simp add: lit_def)
  have d: "drop 7 (lit ''images/'' @ (ds @ 95 # hs @ lit ''.jpg'')) = ds @ 95 # hs @ lit ''.jpg''"
    using len by simp
  have t: "take 7 (lit ''images/'' @ (ds @ 95 # hs @ lit ''.jpg'')) = lit ''images/''"
    using len by simp
  have all: "\<forall>x\<in>set ds. is_digit x" using assms(2) by (simp add: list_all_iff)
  have tw: "takeWhile is_digit (ds @ 95 # hs @ lit ''.jpg'') = ds"
    using all underscore_not_digit by (simp add: takeWhile_tail)
  have dw: "dropWhile is_digit (ds @ 95 # hs @ lit ''.jpg'') = 95 # hs @ lit ''.jpg''"
    using all underscore_not_digit by (simp add: dropWhile_append3)
  show ?thesis unfolding is_image_path_def l d t tw dw Let_def
    using assms by (simp add: lit_def)
qed

lemma image_filename_matches: "is_image_path (lit ''images/'' @ image_filename env)"
  unfolding image_filename_def uuid_prefix
  using image_path_matches [OF conjunct1 [OF decimal_digits] conjunct2 [OF decimal_digits]
      conjunct1 [OF hex_digits] conjunct2 [OF hex_digits],
      of "Date_now env AtFilename" "unat (uuidv4 env AtFilename) div 2 ^ 96"]
  by simp

subsection \<open>What a successful handler has done\<close>

lemma photo_try_steps:
  assumes "succeeds (photo_try env photo caption)"
  shows "\<exists>fid bytes analysis opt c.
     last_photo photo = Inr fid
   \<and> download env fid = Inr bytes
   \<and> snd (analyzeContent env (or_else caption (lit ''Village Photo'')) True) = Inr analysis
   \<and> sharp env bytes = Inr opt
   \<and> snd (uploadImageToGitHub env bytes (image_filename env))
        = Inr (lit ''images/'' @ image_filename env)
   \<and> getp analysis (lit ''category'') = Inr c
   \<and> (if is_gallery_category c
       then succeeds (addPhotoToGallery env (lit ''images/'' @ image_filename env) analysis)
       else succeeds (addNewsToWebsite env analysis (Some (lit ''images/'' @ image_filename env))))"
  using assms unfolding photo_try_def Let_def
  by (auto simp: succeeds_io_bind snd_io_bind_Inr_iff succeeds_iff lift_simps ret_simps
      snd_fetch uploadImage_alt split: if_splits sum.splits option.splits)

lemma photo_try_puts:
  assumes "snd (reply env ProcessingPhoto) = Inr u"
    and "last_photo photo = Inr fid"
    and "download env fid = Inr bytes"
    and "snd (analyzeContent env (or_else caption (lit ''Village Photo'')) True) = Inr analysis"
    and "sharp env bytes = Inr opt"
    and "snd (uploadImageToGitHub env bytes (image_filename env))
        = Inr (lit ''images/'' @ image_filename env)"
    and "getp analysis (lit ''category'') = Inr c"
    and "succeeds (photo_try env photo caption)"
  shows "puts (fst (photo_try env photo caption)) =
     update_params (lit ''images/'' @ image_filename env) (BufferData opt)
       (AddImage (image_filename env)) None
     # (if is_gallery_category c
        then puts (fst (addPhotoToGallery env (lit ''images/'' @ image_filename env) analysis))
        else puts (fst (addNewsToWebsite env analysis
                     (Some (lit ''images/'' @ image_filename env)))))"
proof -
  have up: "fst (uploadImageToGitHub env bytes (image_filename env)) =
     [PutContent (update_params (lit ''images/'' @ image_filename env) (BufferData opt)
        (AddImage (image_filename env)) None)]"
    using assms(5) by (simp add: uploadImage_alt)
  show ?thesis
    unfolding photo_try_def Let_def
    using assms(1-7) up
    by (simp add: io_bind_alt lift_simps ret_simps puts_append puts_reply puts_fetch snd_fetch
        fst_analyzeContent_no_puts fst_interpolate fst_reply split: sum.splits)
qed

lemma document_try_steps:
  assumes "succeeds (document_try env doc caption)"
  shows "\<exists>bytes analysis0 analysis.
     download env (file_id doc) = Inr bytes
   \<and> snd (analyzeContent_opt env (or_undefined caption (file_name doc)) False) = Inr analysis0
   \<and> setp analysis0 (lit ''category'') (Str (lit ''document'')) = Inr analysis
   \<and> succeeds (addNewsToWebsite env analysis None)
   \<and> puts (fst (document_try env doc caption)) =
       update_params (lit ''documents/'' @ template_text (file_name doc)) (BufferData bytes)
         (AddDocument (template_text (file_name doc))) None
       # puts (fst (addNewsToWebsite env analysis None))"
proof -
  from assms obtain bytes analysis0 analysis where
    st: "snd (reply env ProcessingDocument) = Inr ()"
      "download env (file_id doc) = Inr bytes"
      "snd (updateFileOnGitHub env (lit ''documents/'' @ template_text (file_name doc)) (BufferData bytes)
         (AddDocument (template_text (file_name doc))) None) = Inr ()"
      "snd (analyzeContent_opt env (or_undefined caption (file_name doc)) False) = Inr analysis0"
      "setp analysis0 (lit ''category'') (Str (lit ''document'')) = Inr analysis"
      "succeeds (addNewsToWebsite env analysis None)"
    unfolding document_try_def Let_def
    by (auto simp: succeeds_iff snd_io_bind_Inr_iff lift_simps snd_fetch)
  from st(6) obtain r where r: "snd (addNewsToWebsite env analysis None) = Inr r"
    by (auto simp: succeeds_iff)
  have "puts (fst (document_try env doc caption)) =
       update_params (lit ''documents/'' @ template_text (file_name doc)) (BufferData bytes)
         (AddDocument (template_text (file_name doc))) None
       # puts (fst (addNewsToWebsite env analysis None))"
    unfolding document_try_def Let_def
    using st(1-5) r
    by (simp add: io_bind_alt lift_simps puts_append puts_reply puts_fetch snd_fetch
        fst_analyzeContent_opt_no_puts fst_updateFile fst_reply)
  with st show ?thesis by blast
qed

subsection \<open>The writes of the photo handler, whether it succeeds or not\<close>

lemma puts_io_bind:
  "puts (fst (io_bind m f)) =
     puts (fst m) @ (case snd m of Inl e \<Rightarrow> [] | Inr x \<Rightarrow> puts (fst (f x)))"
  by (simp add: io_bind_alt puts_append split: sum.splits)

lemma puts_handle: "puts (handle m failure) = puts (fst m)"
  by (cases m) (auto simp: handle_def puts_append split: sum.splits)

lemma puts_lift: "puts (fst (lift r)) = []"
  by (simp add: lift_simps)

lemma puts_ret: "puts (fst (ret x)) = []"
  by (simp add: ret_simps)

lemma puts_getFile: "puts (fst (getFileFromGitHub env p)) = []"
  by (simp add: fst_getFile)

lemma puts_interpolate: "puts (fst (interpolate env v k)) = []"
  by (simp add: fst_interpolate)

lemma puts_addPhotoToGallery:
  "q \<in> set (puts (fst (addPhotoToGallery env p a))) \<Longrightarrow> path q = gallery_json"
  unfolding addPhotoToGallery_def Let_def
  by (auto simp: puts_io_bind puts_getFile puts_lift puts_ret fst_title_slice fst_updateFile
      path_update_params split: sum.splits prod.splits)

lemma puts_addNewsToWebsite:
  "q \<in> set (puts (fst (addNewsToWebsite env a p))) \<Longrightarrow> path q = news_json"
  unfolding addNewsToWebsite_def Let_def
  by (auto simp: puts_io_bind puts_getFile puts_lift puts_ret fst_title_slice fst_updateFile
      fst_render_news path_update_params split: sum.splits prod.splits)

lemma puts_uploadImage:
  "q \<in> set (puts (fst (uploadImageToGitHub env b f))) \<Longrightarrow> path q = lit ''images/'' @ f"
  by (auto simp: uploadImage_alt path_update_params split: sum.splits)

lemma snd_uploadImage_path:
  "snd (uploadImageToGitHub env b f) = Inr p \<Longrightarrow> p = lit ''images/'' @ f"
  by (auto simp: uploadImage_alt split: sum.splits option.splits)

lemma puts_photo_try:
  assumes "snd (analyzeContent env (or_else caption (lit ''Village Photo'')) True) = Inr analysis"
    and "getp analysis (lit ''category'') = Inr c"
    and "q \<in> set (puts (fst (photo_try env photo caption)))"
  shows "path q = image_path env
    \<or> path q = (if is_gallery_category c then gallery_json else news_json)"
  using assms(3) unfolding photo_try_def Let_def
  by (auto simp: puts_io_bind puts_reply puts_lift puts_fetch puts_ret puts_interpolate
      fst_analyzeContent_no_puts assms(1,2) lift_simps
      split: sum.splits if_splits
      dest!: puts_uploadImage puts_addPhotoToGallery puts_addNewsToWebsite
      dest: snd_uploadImage_path)

lemma puts_on_photo:
  "isAdmin env userId \<Longrightarrow>
   puts (on_photo env userId photo caption) = puts (fst (photo_try env photo caption))"
  by (simp add: on_photo_def puts_handle)

subsection \<open>The example environments\<close>

lemma open_env_admin: "isAdmin open_env u"
  by (simp add: isAdmin_def open_env_def)

lemma open_env_analysis:
  "analyzeContent open_env txt hasImage = ([], Inr (default_analysis txt hasImage))"
  by (simp add: analyzeContent_def analyze_try_def try_catch_def throw_def ret_def open_env_def)

lemma open_env_getFile: "getFileFromGitHub open_env p = ([GetContent p], Inr (None, None))"
  by (simp add: getFile_failure open_env_def)

lemma open_env_reply: "reply open_env r = ([Reply r], Inr ())"
  by (simp add: reply_def call_def open_env_def)

lemma open_env_updateFile:
  "updateFileOnGitHub open_env p c msg s = ([PutContent (update_params p c msg s)], Inr ())"
  by (simp add: updateFileOnGitHub_def call_def open_env_def)

lemma open_env_gallery:
  "snd (addPhotoToGallery open_env p (default_analysis txt True)) = Inr (record_id open_env)"
  unfolding addPhotoToGallery_def Let_def
  by (simp add: io_bind_alt open_env_getFile default_analysis_getp lift_simps ret_simps
      gallery_item_def load_collection_def truthy_def title_slice_def open_env_updateFile
      slice0_def)

lemma open_env_photo: "succeeds (photo_try open_env [lit ''f''] None)"
  unfolding photo_try_def Let_def
  apply (rule succeeds_stepI, simp add: open_env_reply)
  apply (rule succeeds_stepI, simp add: lift_simps last_photo_def)
  apply (rule succeeds_stepI, simp add: fetch_def call_def open_env_def)
  apply (rule succeeds_stepI, simp add: open_env_analysis)
  apply (rule succeeds_stepI, simp add: uploadImage_alt open_env_def)
  apply (rule succeeds_stepI, simp add: lift_simps default_analysis_getp)
  apply (rule succeeds_stepI,
      simp add: is_gallery_category_def io_bind_alt open_env_gallery ret_simps)
  apply (rule succeeds_stepI, simp add: interpolate_def lift_simps default_analysis_getp)
  apply (rule succeeds_stepI, simp add: interpolate_def lift_simps default_analysis_getp)
  apply (simp add: open_env_reply succeeds_def)
  done

lemma open_env_news:
  assumes "getp a (lit ''title_hindi'') = Inr (Str t1)"
    and "getp a (lit ''title_english'') = Inr (Str t2)"
    and "getp a (lit ''description_hindi'') = Inr (Str t3)"
    and "getp a (lit ''description_english'') = Inr (Str t4)"
  shows "succeeds (addNewsToWebsite open_env a None)"
proof -
  obtain item where i: "news_item (record_id open_env) (toLocaleDateString open_env)
      (Date_now open_env AtRecord) a None = Inr item"
    using news_item_Inr [OF assms(1)] by blast
  show ?thesis
    unfolding addNewsToWebsite_def Let_def render_news_def
    apply (rule succeeds_stepI)
     apply (simp add: io_bind_alt interpolate_def lift_simps ret_simps assms truthy_def)
    apply (rule succeeds_stepI, simp add: open_env_getFile)
    apply (simp only: prod.case)
    apply (rule succeeds_stepI, simp add: lift_simps i)
    apply (rule succeeds_stepI, simp add: lift_simps load_collection_def truthy_def)
    apply (rule succeeds_stepI, simp add: lift_simps)
    apply (rule succeeds_stepI, simp add: title_slice_def lift_simps assms)
    apply (rule succeeds_stepI, simp add: open_env_updateFile)
    apply (rule succeeds_ret)
    done
qed

lemma open_env_document: "succeeds (document_try open_env notice_pdf None)"
  unfolding document_try_def Let_def
  apply (rule succeeds_stepI, simp add: open_env_reply)
  apply (rule succeeds_stepI, simp add: fetch_def call_def open_env_def)
  apply (rule succeeds_stepI, simp add: open_env_updateFile)
  apply (rule succeeds_stepI,
      simp add: analyzeContent_opt_def or_undefined_def truthy_def notice_pdf_def open_env_analysis)
  apply (rule succeeds_stepI, simp add: lift_simps default_analysis_def)
  apply (rule succeeds_bindI)
   apply (rule open_env_news; simp add: lit_def)
  apply (simp add: open_env_reply succeeds_def)
  done

lemma decoded_braces: "utf8_decode (base64_decode (lit ''e3s='')) = lit ''{{''"
  by (simp add: base64_decode_def unbase64_def low_byte_def lit_def units_of_cp_def)

lemma broken_env_getFile:
  "getFileFromGitHub broken_env p = ([GetContent p], Inr (Some (lit ''{{''), Some (lit ''abc'')))"
  using getFile_success [of broken_env p
      "\<lparr>data_content = Some (lit ''e3s=''), data_sha = lit ''abc''\<rparr>" "lit ''e3s=''"]
  by (simp add: broken_env_def decoded_braces)

lemma full_env_getFile:
  "getFileFromGitHub full_env p = ([GetContent p], Inr (Some (lit ''{{''), Some (lit ''abc'')))"
  using getFile_success [of full_env p
      "\<lparr>data_content = Some (lit ''e3s=''), data_sha = lit ''abc''\<rparr>" "lit ''e3s=''"]
  by (simp add: full_env_def broken_env_def decoded_braces)

lemma full_env_load:
  "load_collection full_env (Some (lit ''{{'')) = Arr (replicate 50 Null) []"
  by (simp add: load_collection_def truthy_def parse_def full_env_def lit_def)

lemma full_env_news:
  "succeeds (addNewsToWebsite full_env (default_analysis txt hasImage) None)"
proof -
  obtain item where i: "news_item (record_id full_env) (toLocaleDateString full_env)
      (Date_now full_env AtRecord) (default_analysis txt hasImage) None = Inr item"
    using default_news_item by blast
  have acc: "createOrUpdateFileContents full_env = (\<lambda>p. None)"
    by (simp add: full_env_def broken_env_def open_env_def)
  obtain html where h: "snd (render_news full_env (record_id full_env)
      (toLocaleDateString full_env) (default_analysis txt hasImage) None) = Inr html"
    using default_render [of full_env "record_id full_env" "toLocaleDateString full_env" "txt"
        hasImage]
    by (auto simp: succeeds_iff)
  show ?thesis
    unfolding addNewsToWebsite_def Let_def
    apply (rule succeeds_stepI, rule h)
    apply (rule succeeds_stepI, simp add: full_env_getFile)
    apply (simp only: prod.case)
    apply (rule succeeds_stepI, simp add: lift_simps i)
    apply (rule succeeds_stepI, simp add: lift_simps full_env_load)
    apply (rule succeeds_stepI, simp add: lift_simps)
    apply (rule succeeds_stepI, simp add: title_slice_def lift_simps default_analysis_getp)
    apply (rule succeeds_stepI, simp add: accepting_updateFile [OF acc])
    apply (rule succeeds_ret)
    done
qed

lemma event_analysis_getp:
  "getp event_analysis (lit ''category'') = Inr (Str (lit ''event''))"
  "getp event_analysis (lit ''title_hindi'') = Inr (Str (lit ''Mela''))"
  "getp event_analysis (lit ''title_english'') = Inr (Str (lit ''Fair''))"
  "getp event_analysis (lit ''description_hindi'') = Inr (Str (lit ''Mela''))"
  "getp event_analysis (lit ''description_english'') = Inr (Str (lit ''Fair''))"
  by (simp_all add: event_analysis_def lit_def)

lemma classified_env_analysis:
  "analyzeContent classified_env t hasImage = ([CallOpenAI (Prompt t hasImage)], Inr event_analysis)"
  by (simp add: analyzeContent_def analyze_try_def try_catch_def io_bind_def call_def lift_def
      parse_def classified_env_def open_env_def)

lemma classified_env_admin: "isAdmin classified_env u"
  by (simp add: isAdmin_def classified_env_def open_env_def)

lemma render_strings:
  assumes "getp a (lit ''title_hindi'') = Inr (Str t1)"
    and "getp a (lit ''title_english'') = Inr (Str t2)"
    and "getp a (lit ''description_hindi'') = Inr (Str t3)"
    and "getp a (lit ''description_english'') = Inr (Str t4)"
  shows "succeeds (render_news env i d a ip)"
  unfolding render_news_def succeeds_def
  by (cases "truthy ip") (simp_all add: io_bind_alt interpolate_def lift_simps ret_simps assms)

lemma empty_store_news:
  assumes "getp a (lit ''title_hindi'') = Inr (Str t1)"
    and "getp a (lit ''title_english'') = Inr (Str t2)"
    and "getp a (lit ''description_hindi'') = Inr (Str t3)"
    and "getp a (lit ''description_english'') = Inr (Str t4)"
    and "getContent env news_json = Inl (HttpError 404 m)"
    and "createOrUpdateFileContents env = (\<lambda>p. None)"
  shows "succeeds (addNewsToWebsite env a ip)"
proof -
  obtain item where i: "news_item (record_id env) (toLocaleDateString env)
      (Date_now env AtRecord) a ip = Inr item"
    using news_item_Inr [OF assms(1)] by blast
  show ?thesis
    unfolding addNewsToWebsite_def Let_def
    apply (rule succeeds_bindI, rule render_strings [OF assms(1-4)])
    apply (rule succeeds_stepI, simp add: getFile_failure [OF assms(5)])
    apply (simp only: prod.case)
    apply (rule succeeds_stepI, simp add: lift_simps i)
    apply (rule succeeds_stepI, simp add: lift_simps load_collection_def truthy_def)
    apply (rule succeeds_stepI, simp add: lift_simps)
    apply (rule succeeds_stepI, simp add: title_slice_def lift_simps assms(1-4))
    apply (rule succeeds_stepI, simp add: accepting_updateFile [OF assms(6)])
    apply (rule succeeds_ret)
    done
qed

lemma classified_env_photo: "succeeds (photo_try classified_env [lit ''f''] None)"
  unfolding photo_try_def Let_def
  apply (rule succeeds_stepI, simp add: reply_def call_def classified_env_def open_env_def)
  apply (rule succeeds_stepI, simp add: lift_simps last_photo_def)
  apply (rule succeeds_stepI, simp add: fetch_def call_def classified_env_def open_env_def)
  apply (rule succeeds_stepI, simp add: classified_env_analysis)
  apply (rule succeeds_stepI, simp add: uploadImage_alt classified_env_def open_env_def)
  apply (rule succeeds_stepI, simp add: lift_simps event_analysis_getp)
  apply (rule succeeds_bindI)
   apply (simp add: is_gallery_category_def lit_def)
   apply (rule succeeds_bindI)
    apply (rule empty_store_news [OF event_analysis_getp(2-5)])
     apply (simp add: classified_env_def open_env_def)
    apply (simp add: classified_env_def open_env_def)
   apply (rule succeeds_ret)
  apply (rule succeeds_stepI, simp add: interpolate_def lift_simps event_analysis_getp)
  apply (rule succeeds_stepI, simp add: interpolate_def lift_simps event_analysis_getp)
  apply (simp add: reply_def call_def succeeds_def classified_env_def open_env_def)
  done

lemma sample_wellformed: "isWellFormed [2325, 55357, 56832]"
  by (simp add: is_high_def is_low_def)

lemma sample_content:
  "content (update_params p (StringData [2325, 55357, 56832]) msg s) = lit ''4KSV8J+YgA==''"
  by (simp add: update_params_def is_high_def is_low_def utf8_of_cp_def b64_char_def
      b64_code_def b64_pad_def lit_def)

lemma sample_filter:
  "without_whitespace (lit ''4KSV'' @ [10] @ lit ''8J+YgA=='') = lit ''4KSV8J+YgA==''"
  by (simp add: without_whitespace_def b64_whitespace_def lit_def)

subsection \<open>Runs that stop at the commit message\<close>

lemma io_bind_Inr: "io_bind (t, Inr x) f = (t @ fst (f x), snd (f x))"
  by (simp add: io_bind_def split: prod.splits)

lemma io_bind_Inl: "io_bind (t, Inl e) f = (t, Inl e)"
  by (simp add: io_bind_def)

lemma handle_simps:
  "handle (t, Inr u) failure = t"
  "handle (t, Inl e) failure = t @ [Reply (failure e)]"
  by (simp_all add: handle_def)

lemma heritage_env_reply: "reply heritage_env r = ([Reply r], Inr ())"
  by (simp add: reply_def call_def heritage_env_def open_env_def)

lemma heritage_env_fetch: "fetch heritage_env f = ([Download f], Inr [])"
  by (simp add: fetch_def call_def heritage_env_def open_env_def)

lemma heritage_env_analysis:
  "analyzeContent heritage_env t hasImage = ([CallOpenAI (Prompt t hasImage)], Inr heritage_only)"
  by (simp add: analyzeContent_def analyze_try_def try_catch_def io_bind_def call_def lift_def
      parse_def heritage_env_def open_env_def)

lemma heritage_env_upload:
  "uploadImageToGitHub heritage_env [] f =
     ([PutContent (update_params (lit ''images/'' @ f) (BufferData []) (AddImage f) None)],
      Inr (lit ''images/'' @ f))"
  by (simp add: uploadImageToGitHub_def updateFileOnGitHub_def Let_def lift_def call_def ret_def
      io_bind_def heritage_env_def open_env_def)

lemma heritage_only_getp:
  "getp heritage_only (lit ''category'') = Inr (Str (lit ''heritage''))"
  "getp heritage_only (lit ''title_hindi'') = Inr Undefined"
  "getp heritage_only (lit ''title_english'') = Inr Undefined"
  "getp heritage_only (lit ''tags'') = Inr Undefined"
  by (simp_all add: heritage_only_def lit_def)

lemma heritage_env_getFile: "getFileFromGitHub heritage_env p = ([GetContent p], Inr (None, None))"
  by (simp add: getFile_failure heritage_env_def open_env_def)

lemma heritage_env_gallery:
  "addPhotoToGallery heritage_env p heritage_only = ([GetContent gallery_json], Inl TypeError)"
  unfolding addPhotoToGallery_def Let_def
  by (simp add: heritage_env_getFile io_bind_Inr io_bind_Inl lift_def gallery_item_def
      heritage_only_getp load_collection_def truthy_def title_slice_def)

lemma heritage_photo: "photo_try heritage_env [lit ''f''] (Some mandir) =
       ([Reply ProcessingPhoto, Download (lit ''f''), CallOpenAI (Prompt mandir True),
        PutContent (image_put heritage_env []), GetContent gallery_json], Inl TypeError)"
  unfolding photo_try_def Let_def
  by (simp add: heritage_env_reply io_bind_Inr io_bind_Inl lift_def last_photo_def
      heritage_env_fetch or_else_def mandir_def heritage_env_analysis heritage_env_upload
      heritage_only_getp is_gallery_category_def heritage_env_gallery)

lemma untitled_env_reply: "reply untitled_env r = ([Reply r], Inr ())"
  by (simp add: reply_def call_def untitled_env_def open_env_def)

lemma untitled_env_fetch: "fetch untitled_env f = ([Download f], Inr [])"
  by (simp add: fetch_def call_def untitled_env_def open_env_def)

lemma untitled_env_analysis:
  "analyzeContent untitled_env t hasImage = ([CallOpenAI (Prompt t hasImage)], Inr (Obj []))"
  by (simp add: analyzeContent_def analyze_try_def try_catch_def io_bind_def call_def lift_def
      parse_def untitled_env_def open_env_def)

lemma untitled_env_updateFile:
  "updateFileOnGitHub untitled_env p c msg s = ([PutContent (update_params p c msg s)], Inr ())"
  by (simp add: updateFileOnGitHub_def call_def untitled_env_def open_env_def)

lemma untitled_env_getFile: "getFileFromGitHub untitled_env p = ([GetContent p], Inr (None, None))"
  by (simp add: getFile_failure untitled_env_def open_env_def)

lemma untitled_env_news:
  "addNewsToWebsite untitled_env (Obj [(lit ''category'', Str (lit ''document''))]) None =
     ([GetContent news_json], Inl TypeError)"
  unfolding addNewsToWebsite_def Let_def render_news_def
  by (simp add: untitled_env_getFile io_bind_Inr io_bind_Inl lift_def ret_def interpolate_def
      news_item_def load_collection_def truthy_def title_slice_def lit_def)

lemma untitled_document: "document_try untitled_env notice_pdf None =
       ([Reply ProcessingDocument, Download (lit ''d1''),
         PutContent (update_params (lit ''documents/notice.pdf'') (BufferData [])
           (AddDocument (lit ''notice.pdf'')) None),
         CallOpenAI (Prompt (lit ''notice.pdf'') False), GetContent news_json], Inl TypeError)"
proof -
  have p: "lit ''documents/'' @ lit ''notice.pdf'' = lit ''documents/notice.pdf''"
    by (simp add: lit_def)
  have n: "file_name notice_pdf = Some (lit ''notice.pdf'')" "file_id notice_pdf = lit ''d1''"
    by (simp_all add: notice_pdf_def)
  have o: "or_undefined None (Some (lit ''notice.pdf'')) = Some (lit ''notice.pdf'')"
    by (simp add: or_undefined_def truthy_def)
  show ?thesis
    unfolding document_try_def Let_def n o
    by (simp add: untitled_env_reply io_bind_Inr io_bind_Inl lift_def untitled_env_fetch
       template_text_def p untitled_env_updateFile analyzeContent_opt_def untitled_env_analysis
       untitled_env_news)
qed

section \<open>The properties claimed by the specification\<close>

text \<open>
  C1. Claimed: when the primary provider is configured but its call fails, the
  classifier tries the secondary provider before it resorts to the default record.
  The code does not: both providers sit in one \<^verbatim>\<open>try\<close> block, so a failure of the
  primary call goes straight to the \<^verbatim>\<open>catch\<close>. With a failing primary provider and a
  secondary provider whose answer parses, the only call made is the primary one and
  the result is the default record; with the primary provider not configured, the same
  secondary provider is called and its answer returned.
\<close>

theorem primary_failure_skips_secondary:
  "analyzeContent primary_failing_env (lit ''hi'') False
     = ([CallOpenAI (Prompt (lit ''hi'') False)], Inr (default_analysis (lit ''hi'') False))
   \<and> analyzeContent (primary_failing_env\<lparr>openai := None\<rparr>) (lit ''hi'') False
     = ([CallGemini (Prompt (lit ''hi'') False)], Inr (Obj []))"
  by (simp add: analyzeContent_def analyze_try_def try_catch_def io_bind_def call_def ret_def
      lift_def parse_def jsonMatch_def brace_open_def brace_close_def
      primary_failing_env_def open_env_def lit_def)

text \<open>
  C2. When each provider is not configured, fails, or answers with nothing that
  parses, the classifier does not throw and returns the default record: the category is
  \<^verbatim>\<open>gallery\<close> with an image and \<^verbatim>\<open>news\<close> without, both titles are the first 50 code
  units of the text, the priority is \<^verbatim>\<open>medium\<close> and the tags are the empty array.
\<close>

theorem analyzeContent_fallback:
  "openai_unavailable env (Prompt txt hasImage) \<Longrightarrow>
   gemini_unavailable env (Prompt txt hasImage) \<Longrightarrow>
   snd (analyzeContent env txt hasImage) = Inr (default_analysis txt hasImage)
   \<and> getp (default_analysis txt hasImage) (lit ''category'')
       = Inr (Str (if hasImage then lit ''gallery'' else lit ''news''))
   \<and> getp (default_analysis txt hasImage) (lit ''title_hindi'') = Inr (Str (take 50 txt))
   \<and> getp (default_analysis txt hasImage) (lit ''title_english'') = Inr (Str (take 50 txt))
   \<and> getp (default_analysis txt hasImage) (lit ''priority'') = Inr (Str (lit ''medium''))
   \<and> getp (default_analysis txt hasImage) (lit ''tags'') = Inr (Arr [] [])"
proof -
  assume a: "openai_unavailable env (Prompt txt hasImage)"
    and b: "gemini_unavailable env (Prompt txt hasImage)"
  have "snd (analyzeContent env txt hasImage) = Inr (default_analysis txt hasImage)"
    using a b
    by (auto simp: analyzeContent_def analyze_try_def try_catch_def io_bind_def call_def
        ret_def throw_def lift_def parse_def openai_unavailable_def gemini_unavailable_def
        split: option.splits sum.splits prod.splits)
  moreover have "getp (default_analysis txt hasImage) (lit ''category'')
       = Inr (Str (if hasImage then lit ''gallery'' else lit ''news''))"
    by (simp add: default_analysis_def lit_def)
  moreover have "getp (default_analysis txt hasImage) (lit ''title_hindi'') = Inr (Str (take 50 txt))"
    by (simp add: default_analysis_def lit_def slice0_def)
  moreover have "getp (default_analysis txt hasImage) (lit ''title_english'') = Inr (Str (take 50 txt))"
    by (simp add: default_analysis_def lit_def slice0_def)
  moreover have "getp (default_analysis txt hasImage) (lit ''priority'') = Inr (Str (lit ''medium''))"
    by (simp add: default_analysis_def lit_def)
  moreover have "getp (default_analysis txt hasImage) (lit ''tags'') = Inr (Arr [] [])"
    by (simp add: default_analysis_def lit_def)
  ultimately show ?thesis by blast
qed

theorem analyzeContent_fallback_witness:
  "openai_unavailable open_env (Prompt (lit ''hello'') True)
   \<and> gemini_unavailable open_env (Prompt (lit ''hello'') True)
   \<and> snd (analyzeContent open_env (lit ''hello'') True)
       = Inr (default_analysis (lit ''hello'') True)
   \<and> getp (default_analysis (lit ''hello'') True) (lit ''category'') = Inr (Str (lit ''gallery''))"
proof -
  have a: "openai_unavailable open_env (Prompt (lit ''hello'') True)"
    by (simp add: openai_unavailable_def open_env_def)
  have b: "gemini_unavailable open_env (Prompt (lit ''hello'') True)"
    by (simp add: gemini_unavailable_def open_env_def)
  show ?thesis using a b analyzeContent_fallback [OF a b] by simp
qed

text \<open>
  C3. When \<^verbatim>\<open>addNewsToWebsite\<close> succeeds on a stored collection \<open>xs\<close>, its one write
  to the store carries the new record at the head followed by the first 49 records of
  \<open>xs\<close>; with 50 or more records stored before, exactly 50 are written: the new one and
  the 49 newest, the older ones being dropped.
\<close>

theorem news_newest_first_capped:
  assumes "succeeds (addNewsToWebsite env analysis imagePath)"
    and "snd (getFileFromGitHub env news_json) = Inr (c0, s)"
    and "load_collection env c0 = Arr xs ps"
  shows "\<exists>item title.
     news_item (record_id env) (toLocaleDateString env) (Date_now env AtRecord) analysis
       imagePath = Inr item
   \<and> puts (fst (addNewsToWebsite env analysis imagePath)) =
       [collection_put env news_json (Arr (take 50 (item # xs)) []) (AddNews title) s]
   \<and> take 50 (item # xs) = item # take 49 xs
   \<and> (50 \<le> length xs \<longrightarrow> length (take 50 (item # xs)) = 50)"
proof -
  from assms(1) obtain r where "snd (addNewsToWebsite env analysis imagePath) = Inr r"
    by (auto simp: succeeds_iff)
  from addNewsToWebsite_succeeds [OF this] assms(2,3) obtain item title where
    "news_item (record_id env) (toLocaleDateString env) (Date_now env AtRecord) analysis
       imagePath = Inr item"
    and "fst (addNewsToWebsite env analysis imagePath) =
       [GetContent news_json,
        PutContent (collection_put env news_json (Arr (slice0 50 (item # xs)) []) (AddNews title) s)]"
    by auto
  moreover have "take 50 (item # xs) = item # take 49 xs"
    by (simp add: take_Cons')
  ultimately show ?thesis by (auto simp: slice0_def)
qed

theorem news_newest_first_capped_witness:
  "succeeds (addNewsToWebsite full_env (default_analysis (lit ''hi'') False) None)
   \<and> snd (getFileFromGitHub full_env news_json) = Inr (Some (lit ''{{''), Some (lit ''abc''))
   \<and> load_collection full_env (Some (lit ''{{'')) = Arr (replicate 50 Null) []
   \<and> 50 \<le> length (replicate 50 Null)
   \<and> (\<exists>item title.
        puts (fst (addNewsToWebsite full_env (default_analysis (lit ''hi'') False) None)) =
          [collection_put full_env news_json (Arr (item # replicate 49 Null) []) (AddNews title)
             (Some (lit ''abc''))]
      \<and> length (item # replicate 49 Null) = 50)"
proof -
  have a: "succeeds (addNewsToWebsite full_env (default_analysis (lit ''hi'') False) None)"
    by (rule full_env_news)
  have b: "snd (getFileFromGitHub full_env news_json)
      = Inr (Some (lit ''{{''), Some (lit ''abc''))"
    by (simp add: full_env_getFile)
  have c: "load_collection full_env (Some (lit ''{{'')) = Arr (replicate 50 Null) []"
    by (rule full_env_load)
  from news_newest_first_capped [OF a b c] obtain item title where
    "puts (fst (addNewsToWebsite full_env (default_analysis (lit ''hi'') False) None)) =
       [collection_put full_env news_json (Arr (take 50 (item # replicate 50 Null)) [])
          (AddNews title) (Some (lit ''abc''))]"
    by blast
  moreover have "take 50 (item # replicate 50 Null) = item # replicate 49 Null"
    by (simp add: take_Cons')
  ultimately show ?thesis using a b c by auto
qed

text \<open>
  C4. An inbound text from a sender who is not on a non-empty allow-list is answered
  with the authorization notice and nothing else happens: no classifier call, no read
  and no write of the store. With an empty allow-list every sender is authorized.
\<close>

theorem unauthorized_text_rejected:
  "(adminIds env \<noteq> [] \<longrightarrow> (\<forall>n. userId = Some n \<longrightarrow> Id n \<notin> set (adminIds env)) \<longrightarrow>
      on_text env userId txt = [Reply NotAuthorizedText])
   \<and> (adminIds env = [] \<longrightarrow> isAdmin env userId)"
  by (auto simp: on_text_def isAdmin_def includes_id_def fst_reply split: option.splits)

theorem unauthorized_text_rejected_witness:
  "adminIds restricted_env \<noteq> []
   \<and> Id 7 \<notin> set (adminIds restricted_env)
   \<and> on_text restricted_env (Some 7) (lit ''hello'') = [Reply NotAuthorizedText]
   \<and> adminIds open_env = []
   \<and> isAdmin open_env (Some 7)"
  using unauthorized_text_rejected [of restricted_env "Some 7" "lit ''hello''"]
    unauthorized_text_rejected [of open_env "Some 7" "lit ''hello''"]
  by (simp add: restricted_env_def open_env_def)

text \<open>
  C5. \<^verbatim>\<open>getFileFromGitHub\<close> returns the pair of nulls when the request fails with
  status 404 and rethrows every other failure; the pair of nulls carries no version
  token, and a write without one sends no \<^verbatim>\<open>sha\<close>, which makes it a create.
\<close>

theorem missing_file_is_empty_result:
  "(getContent env p = Inl e \<and> status e = Some 404 \<longrightarrow>
      getFileFromGitHub env p = ([GetContent p], Inr (None, None)))
   \<and> (getContent env p = Inl e \<and> status e \<noteq> Some 404 \<longrightarrow>
      getFileFromGitHub env p = ([GetContent p], Inl e))
   \<and> (snd (getFileFromGitHub env p) = Inr (None, s) \<longrightarrow>
      fst (updateFileOnGitHub env p c msg s) = [PutContent (update_params p c msg None)])
   \<and> sha (update_params p c msg None) = None"
proof (intro conjI impI)
  assume "getContent env p = Inl e \<and> status e = Some 404"
  then show "getFileFromGitHub env p = ([GetContent p], Inr (None, None))"
    by (simp add: getFile_failure)
next
  assume "getContent env p = Inl e \<and> status e \<noteq> Some 404"
  then show "getFileFromGitHub env p = ([GetContent p], Inl e)"
    by (simp add: getFile_failure)
next
  assume r: "snd (getFileFromGitHub env p) = Inr (None, s)"
  have "s = None"
  proof (cases "getContent env p")
    case (Inl e')
    with r show ?thesis by (simp add: getFile_failure split: if_splits)
  next
    case (Inr resp)
    with r show ?thesis
      by (cases "data_content resp") (simp_all add: getFile_success getFile_no_content)
  qed
  then show "fst (updateFileOnGitHub env p c msg s) = [PutContent (update_params p c msg None)]"
    by (simp add: fst_updateFile)
next
  show "sha (update_params p c msg None) = None"
    by (simp add: update_params_def)
qed

theorem missing_file_is_empty_result_witness:
  "getContent open_env (lit ''data/news.json'') = Inl (HttpError 404 [])
   \<and> status (HttpError 404 []) = Some 404
   \<and> getFileFromGitHub open_env (lit ''data/news.json'')
       = ([GetContent (lit ''data/news.json'')], Inr (None, None))
   \<and> getContent (open_env\<lparr>getContent := (\<lambda>p. Inl (HttpError 500 []))\<rparr>) (lit ''data/news.json'')
       = Inl (HttpError 500 [])
   \<and> status (HttpError 500 []) \<noteq> Some 404
   \<and> getFileFromGitHub (open_env\<lparr>getContent := (\<lambda>p. Inl (HttpError 500 []))\<rparr>)
         (lit ''data/news.json'')
       = ([GetContent (lit ''data/news.json'')], Inl (HttpError 500 []))
   \<and> fst (updateFileOnGitHub open_env (lit ''data/news.json'') (StringData (lit ''[]''))
             (AddNews []) None)
       = [PutContent (update_params (lit ''data/news.json'') (StringData (lit ''[]''))
             (AddNews []) None)]"
proof -
  let ?p = "lit ''data/news.json''"
  let ?env' = "open_env\<lparr>getContent := (\<lambda>p. Inl (HttpError 500 []))\<rparr>"
  have a: "getContent open_env ?p = Inl (HttpError 404 [])" by (simp add: open_env_def)
  have b: "getContent ?env' ?p = Inl (HttpError 500 [])" by simp
  have c: "snd (getFileFromGitHub open_env ?p) = Inr (None, None)"
    using missing_file_is_empty_result [of open_env ?p "HttpError 404 []"] a by simp
  show ?thesis
    using a b missing_file_is_empty_result [of open_env ?p "HttpError 404 []" None
        "StringData (lit ''[]'')" "AddNews []"]
      missing_file_is_empty_result [of ?env' ?p "HttpError 500 []"] c
    by simp
qed



text \<open>
  C7. For a photo from an authorized sender whose classification has the category
  \<^verbatim>\<open>gallery\<close> or \<^verbatim>\<open>heritage\<close>, the handler never writes to the news collection, and when
  it runs to its end it has written the image and then the gallery collection with one
  new record, holding the image path, at its head. For every other category it never
  writes to the gallery collection, and when it runs to its end it has written the
  image and then the news collection with one new record whose \<^verbatim>\<open>image\<close> is the image
  path. The image path has the form \<^verbatim>\<open>images/<digits>_<8-hex>.jpg\<close>.
\<close>

theorem photo_dispatch:
  assumes "isAdmin env userId"
    and "snd (analyzeContent env (or_else caption (lit ''Village Photo'')) True) = Inr analysis"
    and "getp analysis (lit ''category'') = Inr c"
  shows "is_image_path (image_path env)
   \<and> (is_gallery_category c \<longrightarrow>
        filter (\<lambda>p. path p = news_json) (puts (on_photo env userId photo caption)) = []
      \<and> (succeeds (photo_try env photo caption) \<longrightarrow>
          (\<exists>bytes item xs ps title c0 s.
             snd (getFileFromGitHub env gallery_json) = Inr (c0, s)
           \<and> load_collection env c0 = Arr xs ps
           \<and> gallery_item (record_id env) (image_path env) analysis (Date_now env AtRecord)
                (toLocaleDateString env) = Inr item
           \<and> getp item (lit ''path'') = Inr (Str (image_path env))
           \<and> puts (on_photo env userId photo caption) =
               [image_put env bytes,
                collection_put env gallery_json (Arr (item # xs) ps) (AddGalleryPhoto title) s])))
   \<and> (\<not> is_gallery_category c \<longrightarrow>
        filter (\<lambda>p. path p = gallery_json) (puts (on_photo env userId photo caption)) = []
      \<and> (succeeds (photo_try env photo caption) \<longrightarrow>
          (\<exists>bytes item xs ps title c0 s.
             snd (getFileFromGitHub env news_json) = Inr (c0, s)
           \<and> load_collection env c0 = Arr xs ps
           \<and> news_item (record_id env) (toLocaleDateString env) (Date_now env AtRecord)
                analysis (Some (image_path env)) = Inr item
           \<and> getp item (lit ''image'') = Inr (Str (image_path env))
           \<and> puts (on_photo env userId photo caption) =
               [image_put env bytes,
                collection_put env news_json (Arr (take 50 (item # xs)) []) (AddNews title)
                  s])))"
proof -
  note on = puts_on_photo [OF assms(1)]
  note paths = puts_photo_try [OF assms(2,3)]
  have no_news: "filter (\<lambda>p. path p = news_json) (puts (on_photo env userId photo caption)) = []"
    if c: "is_gallery_category c"
    unfolding on filter_empty_conv
    using c by (auto dest!: paths simp: image_path_not_collection)
  have no_gallery:
    "filter (\<lambda>p. path p = gallery_json) (puts (on_photo env userId photo caption)) = []"
    if c: "\<not> is_gallery_category c"
    unfolding on filter_empty_conv
    using c by (auto dest!: paths simp: image_path_not_collection)
  have steps: "\<exists>opt.
      puts (on_photo env userId photo caption) =
        image_put env opt
        # (if is_gallery_category c
           then puts (fst (addPhotoToGallery env (image_path env) analysis))
           else puts (fst (addNewsToWebsite env analysis (Some (image_path env)))))
    \<and> (if is_gallery_category c
         then succeeds (addPhotoToGallery env (image_path env) analysis)
         else succeeds (addNewsToWebsite env analysis (Some (image_path env))))"
    if ok: "succeeds (photo_try env photo caption)"
  proof -
    from photo_try_steps [OF ok] assms(2,3) obtain fid bytes opt where
      st: "last_photo photo = Inr fid" "download env fid = Inr bytes"
        "sharp env bytes = Inr opt"
        "snd (uploadImageToGitHub env bytes (image_filename env)) = Inr (image_path env)"
      and br: "if is_gallery_category c
         then succeeds (addPhotoToGallery env (image_path env) analysis)
         else succeeds (addNewsToWebsite env analysis (Some (image_path env)))"
      by auto
    have rp: "snd (reply env ProcessingPhoto) = Inr ()"
      using ok unfolding photo_try_def by (auto simp: succeeds_io_bind)
    note pt = photo_try_puts [OF rp st(1,2) assms(2) st(3,4) assms(3) ok]
    show ?thesis using br unfolding on pt by auto
  qed
  have g: "\<exists>bytes item xs ps title c0 s.
             snd (getFileFromGitHub env gallery_json) = Inr (c0, s)
           \<and> load_collection env c0 = Arr xs ps
           \<and> gallery_item (record_id env) (image_path env) analysis (Date_now env AtRecord)
                (toLocaleDateString env) = Inr item
           \<and> getp item (lit ''path'') = Inr (Str (image_path env))
           \<and> puts (on_photo env userId photo caption) =
               [image_put env bytes,
                collection_put env gallery_json (Arr (item # xs) ps) (AddGalleryPhoto title) s]"
    if c: "is_gallery_category c" and ok: "succeeds (photo_try env photo caption)"
  proof -
    from steps [OF ok] c obtain opt r where
      p: "puts (on_photo env userId photo caption) =
        image_put env opt # puts (fst (addPhotoToGallery env (image_path env) analysis))"
      and "snd (addPhotoToGallery env (image_path env) analysis) = Inr r"
      by (auto simp: succeeds_iff)
    from addPhotoToGallery_succeeds [OF this(2)] obtain c0 s item xs ps title where
      f: "snd (getFileFromGitHub env gallery_json) = Inr (c0, s)"
        "gallery_item (record_id env) (image_path env) analysis
          (Date_now env AtRecord) (toLocaleDateString env) = Inr item"
        "load_collection env c0 = Arr xs ps"
        "fst (addPhotoToGallery env (image_path env) analysis) =
          [GetContent gallery_json,
           PutContent (collection_put env gallery_json (Arr (item # xs) ps)
             (AddGalleryPhoto title) s)]"
      by blast
    have "puts (on_photo env userId photo caption) =
             [image_put env opt,
              collection_put env gallery_json (Arr (item # xs) ps) (AddGalleryPhoto title) s]"
      unfolding p f(4) by simp
    with f gallery_item_path [OF f(2)] show ?thesis by blast
  qed
  have n: "\<exists>bytes item xs ps title c0 s.
             snd (getFileFromGitHub env news_json) = Inr (c0, s)
           \<and> load_collection env c0 = Arr xs ps
           \<and> news_item (record_id env) (toLocaleDateString env) (Date_now env AtRecord)
                analysis (Some (image_path env)) = Inr item
           \<and> getp item (lit ''image'') = Inr (Str (image_path env))
           \<and> puts (on_photo env userId photo caption) =
               [image_put env bytes,
                collection_put env news_json (Arr (take 50 (item # xs)) []) (AddNews title) s]"
    if c: "\<not> is_gallery_category c" and ok: "succeeds (photo_try env photo caption)"
  proof -
    from steps [OF ok] c obtain opt r where
      p: "puts (on_photo env userId photo caption) =
        image_put env opt # puts (fst (addNewsToWebsite env analysis (Some (image_path env))))"
      and "snd (addNewsToWebsite env analysis (Some (image_path env))) = Inr r"
      by (auto simp: succeeds_iff)
    from addNewsToWebsite_succeeds [OF this(2)] obtain c0 s item xs ps title where
      f: "snd (getFileFromGitHub env news_json) = Inr (c0, s)"
        "news_item (record_id env) (toLocaleDateString env)
           (Date_now env AtRecord) analysis (Some (image_path env)) = Inr item"
        "load_collection env c0 = Arr xs ps"
        "fst (addNewsToWebsite env analysis (Some (image_path env))) =
          [GetContent news_json,
           PutContent (collection_put env news_json (Arr (slice0 50 (item # xs)) [])
             (AddNews title) s)]"
      by blast
    have "puts (on_photo env userId photo caption) =
             [image_put env opt,
              collection_put env news_json (Arr (take 50 (item # xs)) []) (AddNews title) s]"
      unfolding p f(4) by (simp add: slice0_def)
    with f news_item_image [OF f(2)] show ?thesis by blast
  qed
  show ?thesis using image_filename_matches no_news no_gallery g n by blast
qed

theorem photo_dispatch_witness:
  "isAdmin open_env (Some 7)
   \<and> snd (analyzeContent open_env (or_else None (lit ''Village Photo'')) True)
       = Inr (default_analysis (lit ''Village Photo'') True)
   \<and> getp (default_analysis (lit ''Village Photo'') True) (lit ''category'')
       = Inr (Str (lit ''gallery''))
   \<and> is_gallery_category (Str (lit ''gallery''))
   \<and> succeeds (photo_try open_env [lit ''f''] None)
   \<and> is_image_path (image_path open_env)
   \<and> length (puts (on_photo open_env (Some 7) [lit ''f''] None)) = 2
   \<and> filter (\<lambda>p. path p = news_json) (puts (on_photo open_env (Some 7) [lit ''f''] None)) = []
   \<and> isAdmin classified_env (Some 7)
   \<and> snd (analyzeContent classified_env (or_else None (lit ''Village Photo'')) True)
       = Inr event_analysis
   \<and> getp event_analysis (lit ''category'') = Inr (Str (lit ''event''))
   \<and> \<not> is_gallery_category (Str (lit ''event''))
   \<and> succeeds (photo_try classified_env [lit ''f''] None)
   \<and> length (puts (on_photo classified_env (Some 7) [lit ''f''] None)) = 2
   \<and> filter (\<lambda>p. path p = gallery_json)
         (puts (on_photo classified_env (Some 7) [lit ''f''] None)) = []"
proof -
  have a: "isAdmin open_env (Some 7)" by (rule open_env_admin)
  have b: "succeeds (photo_try open_env [lit ''f''] None)" by (rule open_env_photo)
  have c: "snd (analyzeContent open_env (or_else None (lit ''Village Photo'')) True)
       = Inr (default_analysis (lit ''Village Photo'') True)"
    by (simp add: open_env_analysis or_else_def)
  have d: "getp (default_analysis (lit ''Village Photo'') True) (lit ''category'')
       = Inr (Str (lit ''gallery''))"
    by (simp add: default_analysis_getp)
  have e: "is_gallery_category (Str (lit ''gallery''))"
    by (simp add: is_gallery_category_def)
  from photo_dispatch [OF a c d, of "[lit ''f'']"] e b
  have 1: "is_image_path (image_path open_env)"
    and 2: "filter (\<lambda>p. path p = news_json)
              (puts (on_photo open_env (Some 7) [lit ''f''] None)) = []"
    and 3: "\<exists>bytes item xs ps title s.
       puts (on_photo open_env (Some 7) [lit ''f''] None) =
         [image_put open_env bytes,
          collection_put open_env gallery_json (Arr (item # xs) ps) (AddGalleryPhoto title) s]"
    by blast+
  have a': "isAdmin classified_env (Some 7)" by (rule classified_env_admin)
  have b': "succeeds (photo_try classified_env [lit ''f''] None)"
    by (rule classified_env_photo)
  have c': "snd (analyzeContent classified_env (or_else None (lit ''Village Photo'')) True)
       = Inr event_analysis"
    by (simp add: classified_env_analysis)
  have d': "getp event_analysis (lit ''category'') = Inr (Str (lit ''event''))"
    by (rule event_analysis_getp)
  have e': "\<not> is_gallery_category (Str (lit ''event''))"
    by (simp add: is_gallery_category_def lit_def)
  from photo_dispatch [OF a' c' d', of "[lit ''f'']"] e' b'
  have 4: "filter (\<lambda>p. path p = gallery_json)
              (puts (on_photo classified_env (Some 7) [lit ''f''] None)) = []"
    and 5: "\<exists>bytes item xs ps title s.
       puts (on_photo classified_env (Some 7) [lit ''f''] None) =
         [image_put classified_env bytes,
          collection_put classified_env news_json (Arr (take 50 (item # xs)) []) (AddNews title) s]"
    by blast+
  show ?thesis using a b c d e 1 2 3 a' b' c' d' e' 4 5 by auto
qed

text \<open>
  The restriction to runs that reach their end is needed. When the classifier answers
  the caption \<open>mandir\<close> with an object that has the category \<^verbatim>\<open>heritage\<close> and no
  \<^verbatim>\<open>title_english\<close>, nothing outside the handler fails, and yet the handler uploads the
  image, reads the gallery collection and throws at \<^verbatim>\<open>analysis.title_english.slice\<close>
  (line 301): the image is its only write, and no record is added to either collection.
\<close>

theorem heritage_photo_not_recorded:
  "isAdmin heritage_env (Some 7)
   \<and> analyzeContent heritage_env (or_else (Some mandir) (lit ''Village Photo'')) True
       = ([CallOpenAI (Prompt mandir True)], Inr heritage_only)
   \<and> getp heritage_only (lit ''category'') = Inr (Str (lit ''heritage''))
   \<and> is_gallery_category (Str (lit ''heritage''))
   \<and> on_photo heritage_env (Some 7) [lit ''f''] (Some mandir) =
       [Reply ProcessingPhoto, Download (lit ''f''), CallOpenAI (Prompt mandir True),
        PutContent (image_put heritage_env []), GetContent gallery_json,
        Reply (PhotoError TypeError)]
   \<and> puts (on_photo heritage_env (Some 7) [lit ''f''] (Some mandir))
       = [image_put heritage_env []]"
proof -
  have a: "isAdmin heritage_env (Some 7)"
    by (simp add: isAdmin_def heritage_env_def open_env_def)
  have b: "or_else (Some mandir) (lit ''Village Photo'') = mandir"
    by (simp add: or_else_def mandir_def)
  have c: "on_photo heritage_env (Some 7) [lit ''f''] (Some mandir) =
       [Reply ProcessingPhoto, Download (lit ''f''), CallOpenAI (Prompt mandir True),
        PutContent (image_put heritage_env []), GetContent gallery_json,
        Reply (PhotoError TypeError)]"
    using a by (simp add: on_photo_def heritage_photo handle_simps)
  show ?thesis
    unfolding c b using a
    by (simp add: heritage_env_analysis heritage_only_getp is_gallery_category_def)
qed

text \<open>
  C8. When the document handler runs to its end for an authorized sender, it has
  written the downloaded bytes, unchanged, to \<^verbatim>\<open>documents/<file name>\<close> without a
  \<^verbatim>\<open>sha\<close>; the classifier has run on the caption or, without one, on the file name;
  the category of its result has been set to \<^verbatim>\<open>document\<close>; and one record with that
  category and a null \<^verbatim>\<open>image\<close> has been written at the head of the news collection.
  (A document without a file name goes to \<^verbatim>\<open>documents/undefined\<close>.)
\<close>

theorem document_upload:
  assumes "isAdmin env userId"
    and "succeeds (document_try env doc caption)"
  shows "\<exists>bytes analysis0 analysis item xs ps title c0 s.
     download env (file_id doc) = Inr bytes
   \<and> snd (analyzeContent_opt env (if truthy caption then caption else file_name doc) False)
       = Inr analysis0
   \<and> setp analysis0 (lit ''category'') (Str (lit ''document'')) = Inr analysis
   \<and> snd (getFileFromGitHub env news_json) = Inr (c0, s)
   \<and> load_collection env c0 = Arr xs ps
   \<and> news_item (record_id env) (toLocaleDateString env) (Date_now env AtRecord) analysis None
       = Inr item
   \<and> getp item (lit ''category'') = Inr (Str (lit ''document''))
   \<and> getp item (lit ''image'') = Inr Null
   \<and> puts (on_document env userId doc caption) =
       [update_params (lit ''documents/'' @ template_text (file_name doc)) (BufferData bytes)
          (AddDocument (template_text (file_name doc))) None,
        collection_put env news_json (Arr (take 50 (item # xs)) []) (AddNews title) s]
   \<and> sha (update_params (lit ''documents/'' @ template_text (file_name doc)) (BufferData bytes)
          (AddDocument (template_text (file_name doc))) None) = None
   \<and> base64_decode (content (update_params (lit ''documents/'' @ template_text (file_name doc))
          (BufferData bytes) (AddDocument (template_text (file_name doc))) None)) = bytes"
proof -
  let ?p = "lit ''documents/'' @ template_text (file_name doc)"
  let ?m = "AddDocument (template_text (file_name doc))"
  from document_try_steps [OF assms(2)] obtain bytes analysis0 analysis where
    st: "download env (file_id doc) = Inr bytes"
      "snd (analyzeContent_opt env (or_undefined caption (file_name doc)) False) = Inr analysis0"
      "setp analysis0 (lit ''category'') (Str (lit ''document'')) = Inr analysis"
      "succeeds (addNewsToWebsite env analysis None)"
      "puts (fst (document_try env doc caption)) =
         update_params ?p (BufferData bytes) ?m None
         # puts (fst (addNewsToWebsite env analysis None))"
    by blast
  from st(4) obtain r where "snd (addNewsToWebsite env analysis None) = Inr r"
    by (auto simp: succeeds_iff)
  from addNewsToWebsite_succeeds [OF this] obtain c0 s item xs ps title where
    f: "snd (getFileFromGitHub env news_json) = Inr (c0, s)"
      "news_item (record_id env) (toLocaleDateString env) (Date_now env AtRecord) analysis None
         = Inr item"
      "load_collection env c0 = Arr xs ps"
      "snd (title_slice env analysis 50) = Inr title"
      "fst (addNewsToWebsite env analysis None) =
         [GetContent news_json,
          PutContent (collection_put env news_json (Arr (slice0 50 (item # xs)) [])
            (AddNews title) s)]"
    by blast
  from title_slice_defined [OF f(4)] obtain w where
    "getp analysis (lit ''title_english'') = Inr w" "w \<noteq> Undefined"
    by blast
  from getp_setp [OF st(3) this] have
    "getp analysis (lit ''category'') = Inr (Str (lit ''document''))" .
  from news_item_category [OF f(2) this] have
    cat: "getp item (lit ''category'') = Inr (Str (lit ''document''))" .
  have img: "getp item (lit ''image'') = Inr Null"
    using f(2) by (rule news_item_no_image)
  have on: "on_document env userId doc caption = fst (document_try env doc caption)"
    using assms by (simp add: on_document_def handle_succeeds)
  have p: "puts (on_document env userId doc caption) =
       [update_params ?p (BufferData bytes) ?m None,
        collection_put env news_json (Arr (take 50 (item # xs)) []) (AddNews title) s]"
    unfolding on st(5) f(5) by (simp add: slice0_def)
  have sh: "sha (update_params ?p (BufferData bytes) ?m None) = None"
    by (simp add: update_params_def)
  have b: "base64_decode (content (update_params ?p (BufferData bytes) ?m None)) = bytes"
    by (simp add: update_params_def base64_roundtrip)
  have an: "snd (analyzeContent_opt env (if truthy caption then caption else file_name doc)
      False) = Inr analysis0"
    using st(2) by (simp add: or_undefined_def)
  show ?thesis using st(1,3) an f(1-3) cat img p sh b by blast
qed

theorem document_upload_witness:
  "isAdmin open_env (Some 7)
   \<and> succeeds (document_try open_env notice_pdf None)
   \<and> (\<exists>bytes item xs ps title s.
        puts (on_document open_env (Some 7) notice_pdf None) =
          [update_params (lit ''documents/notice.pdf'') (BufferData bytes)
             (AddDocument (lit ''notice.pdf'')) None,
           collection_put open_env news_json (Arr (take 50 (item # xs)) []) (AddNews title) s]
      \<and> getp item (lit ''category'') = Inr (Str (lit ''document''))
      \<and> getp item (lit ''image'') = Inr Null)"
proof -
  have a: "isAdmin open_env (Some 7)" by (rule open_env_admin)
  have b: "succeeds (document_try open_env notice_pdf None)" by (rule open_env_document)
  have p: "template_text (file_name notice_pdf) = lit ''notice.pdf''"
    "lit ''documents/'' @ lit ''notice.pdf'' = lit ''documents/notice.pdf''"
    by (simp_all add: lit_def notice_pdf_def template_text_def)
  from document_upload [OF a b] obtain bytes item xs ps title s where
    "puts (on_document open_env (Some 7) notice_pdf None) =
       [update_params (lit ''documents/'' @ template_text (file_name notice_pdf))
          (BufferData bytes) (AddDocument (template_text (file_name notice_pdf))) None,
        collection_put open_env news_json (Arr (take 50 (item # xs)) []) (AddNews title) s]"
    "getp item (lit ''category'') = Inr (Str (lit ''document''))"
    "getp item (lit ''image'') = Inr Null"
    by blast
  then show ?thesis using a b unfolding p by auto
qed

text \<open>
  Here too the restriction to runs that reach their end is needed. When the classifier
  answers with the empty object, the handler in an open deployment uploads
  \<^verbatim>\<open>notice.pdf\<close>, reads the news collection and throws at
  \<^verbatim>\<open>analysis.title_english.slice\<close> (line 263): the document is its only write, and no
  record is added to the news collection.
\<close>

theorem untitled_document_not_recorded:
  "isAdmin untitled_env (Some 7)
   \<and> on_document untitled_env (Some 7) notice_pdf None =
       [Reply ProcessingDocument, Download (lit ''d1''),
        PutContent (update_params (lit ''documents/notice.pdf'') (BufferData [])
          (AddDocument (lit ''notice.pdf'')) None),
        CallOpenAI (Prompt (lit ''notice.pdf'') False), GetContent news_json,
        Reply (DocumentError TypeError)]
   \<and> puts (on_document untitled_env (Some 7) notice_pdf None) =
       [update_params (lit ''documents/notice.pdf'') (BufferData [])
          (AddDocument (lit ''notice.pdf'')) None]"
proof -
  have a: "isAdmin untitled_env (Some 7)"
    by (simp add: isAdmin_def untitled_env_def open_env_def)
  have c: "on_document untitled_env (Some 7) notice_pdf None =
       [Reply ProcessingDocument, Download (lit ''d1''),
        PutContent (update_params (lit ''documents/notice.pdf'') (BufferData [])
          (AddDocument (lit ''notice.pdf'')) None),
        CallOpenAI (Prompt (lit ''notice.pdf'') False), GetContent news_json,
        Reply (DocumentError TypeError)]"
    using a by (simp add: on_document_def untitled_document handle_simps)
  show ?thesis unfolding c using a by simp
qed

text \<open>
  C9. Decoding what a write sends gives back what was written: the base64 decoding of
  the \<^verbatim>\<open>content\<close> parameter is the buffer of the payload, and when the store hands the
  written content back, as it is or broken into lines (white space put in),
  \<^verbatim>\<open>getFileFromGitHub\<close> returns the very string that was written,
  for every well-formed string (the output of \<^verbatim>\<open>JSON.stringify\<close> is well-formed).
\<close>

theorem store_roundtrip:
  "base64_decode (content (update_params p c msg s)) = Buffer_from c
   \<and> (isWellFormed t \<longrightarrow>
        getContent env p = Inr r \<longrightarrow>
        data_content r = Some b \<longrightarrow>
        without_whitespace b = content (update_params p (StringData t) msg s) \<longrightarrow>
        getFileFromGitHub env p = ([GetContent p], Inr (Some t, Some (data_sha r))))"
proof (intro conjI impI)
  show "base64_decode (content (update_params p c msg s)) = Buffer_from c"
    by (simp add: update_params_def base64_roundtrip)
next
  assume wf: "isWellFormed t" and g: "getContent env p = Inr r"
    and b: "data_content r = Some b"
    and f: "without_whitespace b = content (update_params p (StringData t) msg s)"
  have "base64_decode b = base64_decode (without_whitespace b)"
    by (simp add: base64_decode_without_whitespace)
  also have "\<dots> = utf8_encode t"
    unfolding f by (simp add: update_params_def base64_roundtrip)
  finally have "utf8_decode (base64_decode b) = t"
    using wf by (simp add: utf8_roundtrip)
  then show "getFileFromGitHub env p = ([GetContent p], Inr (Some t, Some (data_sha r)))"
    using getFile_success [OF g b] by simp
qed

theorem store_roundtrip_witness:
  "isWellFormed [2325, 55357, 56832]
   \<and> getContent wrapping_env news_json =
        Inr \<lparr>data_content = Some (lit ''4KSV'' @ [10] @ lit ''8J+YgA==''), data_sha = lit ''abc''\<rparr>
   \<and> without_whitespace (lit ''4KSV'' @ [10] @ lit ''8J+YgA=='') =
        content (update_params news_json (StringData [2325, 55357, 56832]) (AddNews []) None)
   \<and> getFileFromGitHub wrapping_env news_json =
        ([GetContent news_json], Inr (Some [2325, 55357, 56832], Some (lit ''abc'')))"
proof -
  let ?r = "\<lparr>data_content = Some (lit ''4KSV'' @ [10] @ lit ''8J+YgA==''),
             data_sha = lit ''abc''\<rparr>"
  have a: "isWellFormed [2325, 55357, 56832]" by (rule sample_wellformed)
  have g: "getContent wrapping_env news_json = Inr ?r" by (simp add: wrapping_env_def)
  have b: "data_content ?r = Some (lit ''4KSV'' @ [10] @ lit ''8J+YgA=='')" by simp
  have f: "without_whitespace (lit ''4KSV'' @ [10] @ lit ''8J+YgA=='') =
        content (update_params news_json (StringData [2325, 55357, 56832]) (AddNews []) None)"
    unfolding sample_content by (rule sample_filter)
  from store_roundtrip [of news_json "StringData [2325, 55357, 56832]" "AddNews []" None
      "[2325, 55357, 56832]" wrapping_env ?r "lit ''4KSV'' @ [10] @ lit ''8J+YgA==''"] a g b f
  have "getFileFromGitHub wrapping_env news_json =
        ([GetContent news_json], Inr (Some [2325, 55357, 56832], Some (lit ''abc'')))"
    by simp
  then show ?thesis using a g f by blast
qed

text \<open>
  C10. A text that begins with a slash and reaches the text handler from an authorized
  sender is dropped: the handler performs no action at all (no classifier call, no
  store access, no reply).
\<close>

theorem slash_text_dropped:
  "isAdmin env userId \<Longrightarrow> on_text env userId (lit ''/'' @ rest) = []"
  by (simp add: on_text_def startsWith_def lit_def)

theorem slash_text_dropped_witness:
  "isAdmin open_env (Some 7) \<and> on_text open_env (Some 7) (lit ''/'' @ lit ''recent'') = []"
proof -
  have a: "isAdmin open_env (Some 7)" by (rule open_env_admin)
  show ?thesis using a slash_text_dropped [OF a, of "lit ''recent''"] by simp
qed

end
